theory Spec2Isabelle
  imports Complex_Main
begin

section \<open>Strings\<close>

text \<open>
  Python strings are modelled as lists of 8-bit characters, read as the code points
  U+0000 to U+00FF. The backslash cannot be written inside a string literal, so it
  has a name.
\<close>

abbreviation bsl :: char where "bsl \<equiv> CHR 0x5C"

definition upper_letters :: string where
  "upper_letters = ''ABCDEFGHIJKLMNOPQRSTUVWXYZ'' @
     [CHR 0xC0, CHR 0xC1, CHR 0xC2, CHR 0xC3, CHR 0xC4, CHR 0xC5, CHR 0xC6, CHR 0xC7,
      CHR 0xC8, CHR 0xC9, CHR 0xCA, CHR 0xCB, CHR 0xCC, CHR 0xCD, CHR 0xCE, CHR 0xCF,
      CHR 0xD0, CHR 0xD1, CHR 0xD2, CHR 0xD3, CHR 0xD4, CHR 0xD5, CHR 0xD6,
      CHR 0xD8, CHR 0xD9, CHR 0xDA, CHR 0xDB, CHR 0xDC, CHR 0xDD, CHR 0xDE]"

definition lower_letters :: string where
  "lower_letters = ''abcdefghijklmnopqrstuvwxyz'' @
     [CHR 0xE0, CHR 0xE1, CHR 0xE2, CHR 0xE3, CHR 0xE4, CHR 0xE5, CHR 0xE6, CHR 0xE7,
      CHR 0xE8, CHR 0xE9, CHR 0xEA, CHR 0xEB, CHR 0xEC, CHR 0xED, CHR 0xEE, CHR 0xEF,
      CHR 0xF0, CHR 0xF1, CHR 0xF2, CHR 0xF3, CHR 0xF4, CHR 0xF5, CHR 0xF6,
      CHR 0xF8, CHR 0xF9, CHR 0xFA, CHR 0xFB, CHR 0xFC, CHR 0xFD, CHR 0xFE]"

text \<open>\<^verbatim>\<open>str.lower()\<close>: the capitals of ASCII and of Latin-1 move to their small letters.\<close>

definition lower_char :: "char \<Rightarrow> char" where
  "lower_char c = (case map_of (zip upper_letters lower_letters) c of
                     Some d \<Rightarrow> d | None \<Rightarrow> c)"

definition lower :: "string \<Rightarrow> string" where
  "lower s = map lower_char s"

text \<open>
  \<^verbatim>\<open>str.upper()\<close>, used by the path library only to compare with an ASCII prefix. The
  three small letters of Latin-1 whose capital lies outside Latin-1 or has two
  characters (0xB5, 0xDF, 0xFF) are left as they are; none of them can make the
  comparison succeed.
\<close>

definition upper_char :: "char \<Rightarrow> char" where
  "upper_char c = (case map_of (zip lower_letters upper_letters) c of
                     Some d \<Rightarrow> d | None \<Rightarrow> c)"

definition upper :: "string \<Rightarrow> string" where
  "upper s = map upper_char s"

text \<open>\<^verbatim>\<open>str.isspace()\<close> on one character below U+0100.\<close>

definition isspace :: "char \<Rightarrow> bool" where
  "isspace c \<longleftrightarrow> c \<in> set [CHR 0x09, CHR 0x0A, CHR 0x0B, CHR 0x0C, CHR 0x0D,
                             CHR 0x1C, CHR 0x1D, CHR 0x1E, CHR 0x1F, CHR 0x20,
                             CHR 0x85, CHR 0xA0]"

text \<open>\<^verbatim>\<open>str.strip()\<close> with no argument.\<close>

definition strip :: "string \<Rightarrow> string" where
  "strip s = rev (dropWhile isspace (rev (dropWhile isspace s)))"

text \<open>\<^verbatim>\<open>s.replace(a, b)\<close> for single characters \<open>a\<close> and \<open>b\<close>.\<close>

definition replace_char :: "char \<Rightarrow> char \<Rightarrow> string \<Rightarrow> string" where
  "replace_char a b s = map (\<lambda>c. if c = a then b else c) s"

text \<open>\<^verbatim>\<open>s.replace(a, '')\<close> for a single character \<open>a\<close>.\<close>

definition remove_char :: "char \<Rightarrow> string \<Rightarrow> string" where
  "remove_char a s = filter (\<lambda>c. c \<noteq> a) s"

text \<open>\<^verbatim>\<open>s.split(c)\<close> for a single character \<open>c\<close>: never empty, \<open>''''\<close> gives \<open>['''']\<close>.\<close>

fun split_on :: "char \<Rightarrow> string \<Rightarrow> string list" where
  "split_on c [] = [[]]"
| "split_on c (x # xs) =
     (if x = c then [] # split_on c xs
      else (case split_on c xs of
              [] \<Rightarrow> [[x]]
            | w # ws \<Rightarrow> (x # w) # ws))"

text \<open>\<^verbatim>\<open>sep.join(parts)\<close>.\<close>

fun join_with :: "string \<Rightarrow> string list \<Rightarrow> string" where
  "join_with sep [] = []"
| "join_with sep [p] = p"
| "join_with sep (p # q # ps) = p @ sep @ join_with sep (q # ps)"

text \<open>\<^verbatim>\<open>s.endswith(t)\<close> and \<^verbatim>\<open>s.startswith(t)\<close>.\<close>

definition endswith :: "string \<Rightarrow> string \<Rightarrow> bool" where
  "endswith s t \<longleftrightarrow> length t \<le> length s \<and> drop (length s - length t) s = t"

definition startswith :: "string \<Rightarrow> string \<Rightarrow> bool" where
  "startswith s t \<longleftrightarrow> take (length t) s = t"

text \<open>\<^verbatim>\<open>xs.index(x)\<close>: the first position of \<open>x\<close>; \<open>None\<close> is the \<^verbatim>\<open>ValueError\<close>.\<close>

fun index_of :: "'a \<Rightarrow> 'a list \<Rightarrow> nat option" where
  "index_of x [] = None"
| "index_of x (y # ys) =
     (if y = x then Some 0 else map_option Suc (index_of x ys))"

text \<open>\<^verbatim>\<open>s.find(c, start)\<close> for a single character: \<open>None\<close> is the result \<open>-1\<close>.\<close>

definition find_from :: "char \<Rightarrow> string \<Rightarrow> nat \<Rightarrow> nat option" where
  "find_from c s start = map_option (\<lambda>i. start + i) (index_of c (drop start s))"

section \<open>The path library (\<^verbatim>\<open>os.path\<close>)\<close>

text \<open>
  The converter calls \<^verbatim>\<open>os.path.join\<close> and \<^verbatim>\<open>os.path.normpath\<close>. Which functions
  these are depends on the host: \<^verbatim>\<open>os.path\<close> is the module \<^verbatim>\<open>posixpath\<close> where
  \<^verbatim>\<open>os.name\<close> is \<^verbatim>\<open>'posix'\<close> and the module \<^verbatim>\<open>ntpath\<close> where it is \<^verbatim>\<open>'nt'\<close>. Both are
  modelled, after the Python text of CPython 3.11, and the host is a parameter \<open>os\<close> of
  every function that reaches them.
\<close>

datatype os_name = Posix | Nt

text \<open>\<^verbatim>\<open>posixpath.join(a, b)\<close> with one further component, as the converter calls it.\<close>

definition posixpath_join :: "string \<Rightarrow> string \<Rightarrow> string" where
  "posixpath_join a b =
     (if startswith b ''/'' then b
      else if a = [] \<or> endswith a ''/'' then a @ b
      else a @ ''/'' @ b)"

text \<open>The loop of \<^verbatim>\<open>posixpath.normpath\<close> over \<open>comps\<close>; \<open>new_comps\<close> is built on the way.\<close>

fun posixpath_normpath_loop :: "bool \<Rightarrow> string list \<Rightarrow> string list \<Rightarrow> string list" where
  "posixpath_normpath_loop initial_slashes new_comps [] = new_comps"
| "posixpath_normpath_loop initial_slashes new_comps (c # comps) =
     (if c = [] \<or> c = ''.'' then
        posixpath_normpath_loop initial_slashes new_comps comps
      else if c \<noteq> ''..'' \<or> (\<not> initial_slashes \<and> new_comps = [])
              \<or> (new_comps \<noteq> [] \<and> last new_comps = ''..'') then
        posixpath_normpath_loop initial_slashes (new_comps @ [c]) comps
      else if new_comps \<noteq> [] then
        posixpath_normpath_loop initial_slashes (butlast new_comps) comps
      else posixpath_normpath_loop initial_slashes new_comps comps)"

definition posixpath_normpath :: "string \<Rightarrow> string" where
  "posixpath_normpath path =
     (if path = [] then ''.''
      else
        (let initial_slashes =
               (if startswith path ''/'' then
                  (if startswith path ''//'' \<and> \<not> startswith path ''///'' then 2 else 1)
                else (0 :: nat));
             comps = posixpath_normpath_loop (initial_slashes \<noteq> 0) [] (split_on (CHR ''/'') path);
             path = replicate initial_slashes (CHR ''/'') @ join_with ''/'' comps
         in if path = [] then ''.'' else path))"

definition unc_prefix :: string where
  "unc_prefix = [bsl, bsl, CHR ''?'', bsl, CHR ''U'', CHR ''N'', CHR ''C'', bsl]"

text \<open>\<^verbatim>\<open>ntpath.splitdrive(p)\<close>.\<close>

definition ntpath_splitdrive :: "string \<Rightarrow> string \<times> string" where
  "ntpath_splitdrive p =
     (if 2 \<le> length p then
        (let normp = replace_char (CHR ''/'') bsl p in
         if take 2 normp = [bsl, bsl] then
           (let start = (if upper (take 8 normp) = unc_prefix then 8 else 2) in
            case find_from bsl normp start of
              None \<Rightarrow> (p, [])
            | Some index \<Rightarrow>
                (case find_from bsl normp (index + 1) of
                   None \<Rightarrow> (p, [])
                 | Some index2 \<Rightarrow> (take index2 p, drop index2 p)))
         else if take 1 (drop 1 normp) = '':'' then (take 2 p, drop 2 p)
         else ([], p))
      else ([], p))"

definition is_sep :: "char \<Rightarrow> bool" where
  "is_sep c \<longleftrightarrow> c = bsl \<or> c = CHR ''/''"

text \<open>\<^verbatim>\<open>ntpath.join(path, p)\<close> with one further component.\<close>

definition ntpath_join :: "string \<Rightarrow> string \<Rightarrow> string" where
  "ntpath_join path p =
     (let (result_drive, result_path) = ntpath_splitdrive path;
          (p_drive, p_path) = ntpath_splitdrive p;
          (result_drive, result_path) =
            (if p_path \<noteq> [] \<and> is_sep (hd p_path) then
               ((if p_drive \<noteq> [] \<or> result_drive = [] then p_drive else result_drive),
                p_path)
             else if p_drive \<noteq> [] \<and> p_drive \<noteq> result_drive
                     \<and> lower p_drive \<noteq> lower result_drive then
               (p_drive, p_path)
             else
               (let result_drive =
                      (if p_drive \<noteq> [] \<and> p_drive \<noteq> result_drive
                       then p_drive else result_drive);
                    result_path =
                      (if result_path \<noteq> [] \<and> \<not> is_sep (last result_path)
                       then result_path @ [bsl] else result_path)
                in (result_drive, result_path @ p_path)))
      in if result_path \<noteq> [] \<and> \<not> is_sep (hd result_path)
            \<and> result_drive \<noteq> [] \<and> last result_drive \<noteq> CHR '':''
         then result_drive @ [bsl] @ result_path
         else result_drive @ result_path)"

text \<open>
  The loop of \<^verbatim>\<open>ntpath.normpath\<close> over the index \<open>i\<close> of \<open>comps\<close>: \<open>pre\<close> is \<open>comps[:i]\<close>
  and the list argument is \<open>comps[i:]\<close>.
\<close>

fun ntpath_normpath_loop :: "string \<Rightarrow> string list \<Rightarrow> string list \<Rightarrow> string list" where
  "ntpath_normpath_loop prefix pre [] = pre"
| "ntpath_normpath_loop prefix pre (c # cs) =
     (if c = [] \<or> c = ''.'' then ntpath_normpath_loop prefix pre cs
      else if c = ''..'' then
        (if pre \<noteq> [] \<and> last pre \<noteq> ''..'' then ntpath_normpath_loop prefix (butlast pre) cs
         else if pre = [] \<and> endswith prefix [bsl] then ntpath_normpath_loop prefix pre cs
         else ntpath_normpath_loop prefix (pre @ [c]) cs)
      else ntpath_normpath_loop prefix (pre @ [c]) cs)"

definition ntpath_normpath :: "string \<Rightarrow> string" where
  "ntpath_normpath path0 =
     (let path = replace_char (CHR ''/'') bsl path0;
          (prefix, path) = ntpath_splitdrive path;
          (prefix, path) =
            (if startswith path [bsl]
             then (prefix @ [bsl], dropWhile (\<lambda>c. c = bsl) path)
             else (prefix, path));
          comps = ntpath_normpath_loop prefix [] (split_on bsl path);
          comps = (if prefix = [] \<and> comps = [] then [''.''] else comps)
      in prefix @ join_with [bsl] comps)"

text \<open>\<^verbatim>\<open>os.path.join\<close> and \<^verbatim>\<open>os.path.normpath\<close> on the host \<open>os\<close>.\<close>

fun path_join :: "os_name \<Rightarrow> string \<Rightarrow> string \<Rightarrow> string" where
  "path_join Posix a b = posixpath_join a b"
| "path_join Nt a b = ntpath_join a b"

fun normpath :: "os_name \<Rightarrow> string \<Rightarrow> string" where
  "normpath Posix path = posixpath_normpath path"
| "normpath Nt path = ntpath_normpath path"

section \<open>The diagnostic log and the process-wide state\<close>

text \<open>
  One constructor for each call of \<^verbatim>\<open>logging.warning\<close> and \<^verbatim>\<open>logging.info\<close> that the
  modelled code makes, with the source values its message interpolates. The text of a
  caught exception, which some messages append, is left out.
\<close>

datatype log_entry =
    Invalid_nif_path_rel string
  | No_Data_root string
  | Bad_translation string
  | Bad_rotation
  | Bad_scale string
  | Bad_RGB string
  | Bad_float string
  | First_pass_start
  | First_pass_complete nat nat
  | Second_pass_start
  | Second_pass_complete

text \<open>
  The state that outlives a call: the log file and the global set
  \<^verbatim>\<open>UNHANDLED_COMPONENTS\<close>.
\<close>

record state =
  logged :: "log_entry list"
  unhandled :: "string set"

definition logging :: "log_entry \<Rightarrow> state \<Rightarrow> state" where
  "logging e st = st\<lparr>logged := logged st @ [e]\<rparr>"

section \<open>Path helper\<close>

text \<open>
  \<^verbatim>\<open>get_unreal_asset_path(nif_path_rel, gsa_dir)\<close>. The argument is a string by its type,
  so of the first test only the emptiness check remains. \<open>None\<close> is the Python \<^verbatim>\<open>None\<close>.
\<close>

definition get_unreal_asset_path ::
  "os_name \<Rightarrow> string \<Rightarrow> string \<Rightarrow> state \<Rightarrow> string option \<times> state" where
  "get_unreal_asset_path os nif_path_rel gsa_dir st =
     (if nif_path_rel = [] then (None, logging (Invalid_nif_path_rel nif_path_rel) st)
      else
        (let full_nif_path = path_join os gsa_dir nif_path_rel;
             normalized_path = normpath os full_nif_path;
             path_parts = split_on (CHR ''/'') (replace_char bsl (CHR ''/'') normalized_path)
         in case index_of ''Data'' path_parts of
              None \<Rightarrow> (None, logging (No_Data_root normalized_path) st)
            | Some data_index \<Rightarrow>
                (let relative_to_data = drop (data_index + 1) path_parts;
                     clean_path = join_with ''/'' relative_to_data;
                     clean_path = (if endswith (lower clean_path) ''.nif''
                                   then take (length clean_path - 4) clean_path
                                   else clean_path)
                 in (Some (replace_char bsl (CHR ''/'') (path_join os ''/Game'' clean_path)),
                     st))))"

section \<open>Source elements\<close>

text \<open>
  An element of the parsed document as the XML library presents it: its tag, its
  attributes, its text (\<open>None\<close> when there is none) and its child elements in
  document order.
\<close>

datatype element =
  Element (tag: string) (attrib: "(string \<times> string) list") (etext: "string option")
          (children: "element list")

text \<open>\<^verbatim>\<open>element.get(name)\<close>: the attribute's value, \<open>None\<close> when it is absent.\<close>

definition get :: "element \<Rightarrow> string \<Rightarrow> string option" where
  "get e a = map_of (attrib e) a"

text \<open>\<^verbatim>\<open>element.find("PROPERTY[@Name='n']")\<close>: the first such child.\<close>

definition find_property :: "element \<Rightarrow> string \<Rightarrow> element option" where
  "find_property e n =
     find (\<lambda>c. tag c = ''PROPERTY'' \<and> get c ''Name'' = Some n) (children e)"

text \<open>\<^verbatim>\<open>element.findall(t)\<close>: the children with tag \<open>t\<close>, in document order.\<close>

definition findall :: "element \<Rightarrow> string \<Rightarrow> element list" where
  "findall e t = filter (\<lambda>c. tag c = t) (children e)"

text \<open>The truth value of an optional string: neither \<^verbatim>\<open>None\<close> nor empty.\<close>

definition truthy :: "string option \<Rightarrow> bool" where
  "truthy s \<longleftrightarrow> (case s of None \<Rightarrow> False | Some t \<Rightarrow> t \<noteq> [])"

text \<open>\<^verbatim>\<open>element.clear()\<close>: the attributes, the text and the children go; the tag stays.\<close>

definition clear :: "element \<Rightarrow> element" where
  "clear e = Element (tag e) [] None []"

section \<open>Normalized values and dictionaries\<close>

text \<open>
  The values a Normalized Component holds. Python's \<^verbatim>\<open>float\<close> is not modelled: the
  type \<open>'f\<close> of floats and the builtin conversion \<^verbatim>\<open>float(s)\<close> are parameters of
  every function that converts, written \<open>pf\<close>, where \<open>pf s = None\<close> is the
  \<^verbatim>\<open>ValueError\<close> of a text that is no number.
\<close>

datatype 'f pyval =
    PNone
  | PStr string
  | PFloat 'f
  | PFloats "'f list"
  | PMatrix "'f list list"
  | PStrs "string list"

text \<open>
  A Python \<^verbatim>\<open>dict\<close> keeps its keys in insertion order: an association list with
  distinct keys. Assigning to a key that is present keeps the key's position.
\<close>

type_synonym 'f pydict = "(string \<times> 'f pyval) list"

fun setitem :: "'k \<Rightarrow> 'v \<Rightarrow> ('k \<times> 'v) list \<Rightarrow> ('k \<times> 'v) list" where
  "setitem k v [] = [(k, v)]"
| "setitem k v ((k', v') # d) =
     (if k' = k then (k', v) # d else (k', v') # setitem k v d)"

text \<open>\<^verbatim>\<open>d.update(other)\<close>.\<close>

definition update_dict :: "('k \<times> 'v) list \<Rightarrow> ('k \<times> 'v) list \<Rightarrow> ('k \<times> 'v) list" where
  "update_dict d other = fold (\<lambda>(k, v). setitem k v) other d"

definition opt_str :: "string option \<Rightarrow> 'f pyval" where
  "opt_str s = (case s of None \<Rightarrow> PNone | Some t \<Rightarrow> PStr t)"

text \<open>How an f-string prints an optional string.\<close>

definition fmt :: "string option \<Rightarrow> string" where
  "fmt s = (case s of None \<Rightarrow> ''None'' | Some t \<Rightarrow> t)"

text \<open>\<^verbatim>\<open>[float(v.strip()) for v in text.split(',')]\<close>; \<open>None\<close> when one conversion raises.\<close>

definition parse_floats :: "(string \<Rightarrow> 'f option) \<Rightarrow> string \<Rightarrow> 'f list option" where
  "parse_floats pf t = those (map (\<lambda>v. pf (strip v)) (split_on (CHR '','') t))"

section \<open>Component parsers\<close>

text \<open>
  \<^verbatim>\<open>parse_transform\<close> reads three properties one after the other; each of the three
  blocks takes the dictionary \<open>transform\<close> built so far. Lines 60 to 65:
\<close>

definition transform_translation ::
  "(string \<Rightarrow> 'f option) \<Rightarrow> element \<Rightarrow> 'f pydict \<times> state \<Rightarrow> 'f pydict \<times> state" where
  "transform_translation pf component acc =
     (let (transform, st) = acc in
      case find_property component ''Translation'' of
        None \<Rightarrow> (transform, st)
      | Some translation_prop \<Rightarrow>
          if truthy (etext translation_prop) then
            (case parse_floats pf (the (etext translation_prop)) of
               Some vs \<Rightarrow> (setitem ''translation'' (PFloats vs) transform, st)
             | None \<Rightarrow>
                 (transform, logging (Bad_translation (the (etext translation_prop))) st))
          else (transform, st))"

text \<open>Lines 67 to 79: a row without text is skipped, a row that does not parse drops the matrix.\<close>

definition transform_rotation ::
  "(string \<Rightarrow> 'f option) \<Rightarrow> element \<Rightarrow> 'f pydict \<times> state \<Rightarrow> 'f pydict \<times> state" where
  "transform_rotation pf component acc =
     (let (transform, st) = acc in
      case find_property component ''Rotation'' of
        None \<Rightarrow> (transform, st)
      | Some rotation_matrix \<Rightarrow>
          (let rows = findall rotation_matrix ''ROW'' in
           if rows = [] then (transform, st)
           else (case those (map (\<lambda>row. parse_floats pf (the (etext row)))
                               (filter (\<lambda>row. truthy (etext row)) rows)) of
                   Some matrix \<Rightarrow>
                     if matrix \<noteq> []
                     then (setitem ''rotation'' (PMatrix matrix) transform, st)
                     else (transform, st)
                 | None \<Rightarrow> (transform, logging Bad_rotation st))))"

text \<open>Lines 81 to 86.\<close>

definition transform_scale ::
  "(string \<Rightarrow> 'f option) \<Rightarrow> element \<Rightarrow> 'f pydict \<times> state \<Rightarrow> 'f pydict \<times> state" where
  "transform_scale pf component acc =
     (let (transform, st) = acc in
      case find_property component ''Scale'' of
        None \<Rightarrow> (transform, st)
      | Some scale_prop \<Rightarrow>
          if truthy (etext scale_prop) then
            (case pf (the (etext scale_prop)) of
               Some v \<Rightarrow> (setitem ''scale'' (PFloat v) transform, st)
             | None \<Rightarrow> (transform, logging (Bad_scale (the (etext scale_prop))) st))
          else (transform, st))"

definition parse_transform ::
  "(string \<Rightarrow> 'f option) \<Rightarrow> element \<Rightarrow> state \<Rightarrow> 'f pydict \<times> state" where
  "parse_transform pf component st =
     transform_scale pf component
       (transform_rotation pf component
          (transform_translation pf component ([], st)))"

text \<open>The key that \<^verbatim>\<open>parse_light\<close> derives from a property name.\<close>

definition key_name :: "string \<Rightarrow> string" where
  "key_name prop_name =
     remove_char (CHR '')'') (remove_char (CHR ''('')
       (replace_char (CHR '' '') (CHR ''_'') (lower prop_name)))"

text \<open>The body of the loop of \<^verbatim>\<open>parse_light\<close> for one property.\<close>

definition parse_light_prop ::
  "(string \<Rightarrow> 'f option) \<Rightarrow> element \<Rightarrow> 'f pydict \<times> state \<Rightarrow> 'f pydict \<times> state" where
  "parse_light_prop pf prop acc =
     (let (light_props, st) = acc;
          prop_name = get prop ''Name'';
          prop_class = get prop ''Class'';
          prop_text = (if truthy (etext prop) then strip (the (etext prop)) else [])
      in if \<not> truthy prop_name then (light_props, st)
         else
           (let key = key_name (the prop_name) in
            if prop_class = Some ''Entity Pointer'' then
              (let affected_entities =
                     map (\<lambda>item. the (get item ''RefLinkID''))
                       (filter (\<lambda>item. truthy (get item ''RefLinkID'')) (findall prop ''ITEM''))
               in (setitem key (PStrs affected_entities) light_props, st))
            else if prop_class = Some ''Color (RGB)'' then
              (case parse_floats pf prop_text of
                 Some vs \<Rightarrow> (setitem key (PFloats vs) light_props, st)
               | None \<Rightarrow> (light_props, logging (Bad_RGB prop_text) st))
            else if prop_class = Some ''Float'' then
              (case pf prop_text of
                 Some v \<Rightarrow> (setitem key (PFloat v) light_props, st)
               | None \<Rightarrow> (light_props, logging (Bad_float prop_text) st))
            else (setitem key (PStr prop_text) light_props, st)))"

definition parse_light ::
  "(string \<Rightarrow> 'f option) \<Rightarrow> element \<Rightarrow> state \<Rightarrow> 'f pydict \<times> state" where
  "parse_light pf component st =
     fold (parse_light_prop pf) (findall component ''PROPERTY'') ([], st)"

section \<open>Resolving components\<close>

text \<open>The exceptions that the resolution code can raise and does not catch itself.\<close>

datatype exn = TypeError | KeyError | RecursionError

text \<open>
  Lines 154 to 160 of \<^verbatim>\<open>get_component_data\<close>, the branch of a scene-graph component: the
  path is read from the property \<^verbatim>\<open>Scene Root\<close> or else \<^verbatim>\<open>NIF File Path\<close>, and both
  \<^verbatim>\<open>unreal_path\<close> and \<^verbatim>\<open>nif_path_rel\<close> are assigned whatever the path helper returns.
\<close>

definition scene_graph_body ::
  "os_name \<Rightarrow> element \<Rightarrow> string \<Rightarrow> 'f pydict \<times> state \<Rightarrow> 'f pydict \<times> state" where
  "scene_graph_body os component gsa_dir acc =
     (let (data, st) = acc;
          sg_prop = find_property component ''Scene Root'';
          sg_prop = (if sg_prop = None then find_property component ''NIF File Path''
                     else sg_prop)
      in case sg_prop of
           None \<Rightarrow> (data, st)
         | Some prop \<Rightarrow>
             if truthy (etext prop) then
               (let nif_path_rel = strip (the (etext prop));
                    (unreal_path, st) = get_unreal_asset_path os nif_path_rel gsa_dir st;
                    data = setitem ''unreal_path'' (opt_str unreal_path) data;
                    data = setitem ''nif_path_rel'' (PStr nif_path_rel) data
                in (data, st))
             else (data, st))"

text \<open>The entry of line 164: \<^verbatim>\<open>f"{comp_class}::{comp_name}"\<close>.\<close>

definition unhandled_name :: "element \<Rightarrow> string" where
  "unhandled_name component =
     fmt (get component ''Class'') @ ''::'' @ fmt (get component ''Name'')"

text \<open>
  Lines 147 to 166 of \<^verbatim>\<open>get_component_data\<close>: what the function does to \<open>data\<close> once the
  master chain has been merged into it. The base triple is written first, then the
  attributes of the component's class.
\<close>

definition component_body ::
  "(string \<Rightarrow> 'f option) \<Rightarrow> os_name \<Rightarrow> string \<Rightarrow> element \<Rightarrow> string \<Rightarrow> 'f pydict
     \<Rightarrow> state \<Rightarrow> 'f pydict \<times> state" where
  "component_body pf os comp_link_id component gsa_dir data0 st =
     (let comp_class = get component ''Class'';
          comp_name = get component ''Name'';
          data = setitem ''link_id'' (PStr comp_link_id) data0;
          data = setitem ''class'' (opt_str comp_class) data;
          data = setitem ''name'' (opt_str comp_name) data
      in if comp_class = Some ''NiTransformationComponent'' then
           (let (transform, st) = parse_transform pf component st
            in (update_dict data transform, st))
         else if comp_class = Some ''NiSceneGraphComponent'' then
           scene_graph_body os component gsa_dir (data, st)
         else if comp_class = Some ''NiLightComponent'' then
           (let (light_props, st) = parse_light pf component st
            in (update_dict data light_props, st))
         else if comp_class \<notin> set [Some ''NiCameraComponent'', Some ''NiGeneralComponent'',
                                  Some ''NiCollisionComponent''] then
           (data, st\<lparr>unhandled := insert (unhandled_name component) (unhandled st)\<rparr>)
         else (data, st))"

text \<open>The reference that the function builds to follow a master link (lines 143 and 144).\<close>

abbreviation master_ref :: "string \<Rightarrow> element" where
  "master_ref m \<equiv> Element ''DUMMY'' [(''RefLinkID'', m)] None []"

text \<open>
  \<^verbatim>\<open>get_component_data(component_ref, components_map, templates_map, gsa_dir)\<close>. The
  function calls itself on the master link and keeps no record of the components it has
  visited; what ends a chain of calls that does not end by itself is the interpreter,
  which raises \<^verbatim>\<open>RecursionError\<close> when a call would exceed its recursion limit
  (\<^verbatim>\<open>sys.getrecursionlimit()\<close>, 1000 unless it is changed). The argument \<open>depth\<close> is the
  number of nested calls of this function that the limit still allows where the call is
  made: a call with none left raises, and each call leaves its master one less. The
  frames of the helpers that a call uses are not counted separately: \<open>depth\<close> counts
  the calls that can be entered with room for them. In the result, \<open>Inl\<close> is an
  exception, \<open>Inr None\<close> the Python \<^verbatim>\<open>None\<close> of a reference that does not resolve, and
  \<open>Inr (Some data)\<close> the dictionary. \<^verbatim>\<open>data.update(None)\<close> is a \<^verbatim>\<open>TypeError\<close>.
\<close>

fun get_component_data ::
  "(string \<Rightarrow> 'f option) \<Rightarrow> os_name \<Rightarrow> nat \<Rightarrow> element \<Rightarrow> (string \<rightharpoonup> element)
     \<Rightarrow> (string \<rightharpoonup> element) \<Rightarrow> string \<Rightarrow> state \<Rightarrow> (exn + 'f pydict option) \<times> state" where
  "get_component_data pf os 0 component_ref components_map templates_map gsa_dir st =
     (Inl RecursionError, st)"
| "get_component_data pf os (Suc depth) component_ref components_map templates_map gsa_dir st =
     (case get component_ref ''RefLinkID'' of
        None \<Rightarrow> (Inr None, st)
      | Some comp_link_id \<Rightarrow>
          if comp_link_id = [] then (Inr None, st)
          else
            (case components_map comp_link_id of
               None \<Rightarrow> (Inr None, st)
             | Some component \<Rightarrow>
                 (case (case get component ''MasterLinkID'' of
                          None \<Rightarrow> (Inr [], st)
                        | Some master_link_id \<Rightarrow>
                            if master_link_id \<noteq> [] \<and> components_map master_link_id \<noteq> None
                            then
                              (case get_component_data pf os depth (master_ref master_link_id)
                                      components_map templates_map gsa_dir st of
                                 (Inl e, st) \<Rightarrow> (Inl e, st)
                               | (Inr None, st) \<Rightarrow> (Inl TypeError, st)
                               | (Inr (Some master_data), st) \<Rightarrow>
                                   (Inr (update_dict [] master_data), st))
                            else (Inr [], st)) of
                    (Inl e, st) \<Rightarrow> (Inl e, st)
                  | (Inr data, st) \<Rightarrow>
                      (let (data, st) =
                             component_body pf os comp_link_id component gsa_dir data st
                       in (Inr (Some data), st)))))"

text \<open>
  The classes that lines 151 to 163 name: three are parsed and three are ignored. A
  component of any other class, or of none, is reported as unhandled.
\<close>

definition recognized :: "string option \<Rightarrow> bool" where
  "recognized comp_class \<longleftrightarrow>
     comp_class = Some ''NiTransformationComponent'' \<or>
     comp_class = Some ''NiSceneGraphComponent'' \<or>
     comp_class = Some ''NiLightComponent'' \<or>
     comp_class = Some ''NiCameraComponent'' \<or>
     comp_class = Some ''NiGeneralComponent'' \<or>
     comp_class = Some ''NiCollisionComponent''"

section \<open>Resolving entities\<close>

text \<open>Only \<^verbatim>\<open>None\<close>, strings and floats can be keys of a Python dictionary here.\<close>

fun hashable :: "'f pyval \<Rightarrow> bool" where
  "hashable PNone = True"
| "hashable (PStr s) = True"
| "hashable (PFloat x) = True"
| "hashable (PFloats xs) = False"
| "hashable (PMatrix m) = False"
| "hashable (PStrs xs) = False"

text \<open>
  The loop of lines 186 to 189, and again of lines 192 to 195: every reference is
  resolved and a result that is neither \<^verbatim>\<open>None\<close> nor empty is stored under its
  \<^verbatim>\<open>'name'\<close>. The argument \<open>acc\<close> is the name-keyed dictionary built so far. Keys
  are compared with the equality of HOL, which on floats is Python's except for NaN.
\<close>

fun collect_components ::
  "(string \<Rightarrow> 'f option) \<Rightarrow> os_name \<Rightarrow> nat \<Rightarrow> element list \<Rightarrow> (string \<rightharpoonup> element)
     \<Rightarrow> (string \<rightharpoonup> element) \<Rightarrow> string \<Rightarrow> ('f pyval \<times> 'f pydict) list \<Rightarrow> state
     \<Rightarrow> (exn + ('f pyval \<times> 'f pydict) list) \<times> state" where
  "collect_components pf os depth [] components_map templates_map gsa_dir acc st =
     (Inr acc, st)"
| "collect_components pf os depth (comp_ref # refs) components_map templates_map gsa_dir acc st =
     (case get_component_data pf os depth comp_ref components_map templates_map gsa_dir st of
        (Inl e, st) \<Rightarrow> (Inl e, st)
      | (Inr None, st) \<Rightarrow>
          collect_components pf os depth refs components_map templates_map gsa_dir acc st
      | (Inr (Some comp_data), st) \<Rightarrow>
          if comp_data = [] then
            collect_components pf os depth refs components_map templates_map gsa_dir acc st
          else
            (case map_of comp_data ''name'' of
               None \<Rightarrow> (Inl KeyError, st)
             | Some n \<Rightarrow>
                 if hashable n then
                   collect_components pf os depth refs components_map templates_map gsa_dir
                     (setitem n comp_data acc) st
                 else (Inl TypeError, st)))"

text \<open>The Entity Record; an attribute that the element lacks is \<^verbatim>\<open>None\<close>.\<close>

record 'f entity_data =
  name :: "string option"
  class_name :: "string option"
  type_name :: "string option"
  template_id :: "string option"
  instance_id :: "string option"
  components :: "'f pydict list"

text \<open>
  \<^verbatim>\<open>get_entity_data(entity, components_map, templates_map, gsa_dir)\<close>; \<open>depth\<close> is what
  the recursion limit allows to the calls of \<^verbatim>\<open>get_component_data\<close> that it makes.
\<close>

definition get_entity_data ::
  "(string \<Rightarrow> 'f option) \<Rightarrow> os_name \<Rightarrow> nat \<Rightarrow> element \<Rightarrow> (string \<rightharpoonup> element)
     \<Rightarrow> (string \<rightharpoonup> element) \<Rightarrow> string \<Rightarrow> state \<Rightarrow> (exn + 'f entity_data option) \<times> state" where
  "get_entity_data pf os depth entity components_map templates_map gsa_dir st =
     (case get entity ''MasterLinkID'' of
        None \<Rightarrow> (Inr None, st)
      | Some master_link \<Rightarrow>
          if master_link = [] then (Inr None, st)
          else
            (case templates_map master_link of
               None \<Rightarrow> (Inr None, st)
             | Some template_entity \<Rightarrow>
                 (case collect_components pf os depth (findall template_entity ''COMPONENT'')
                         components_map templates_map gsa_dir [] st of
                    (Inl e, st) \<Rightarrow> (Inl e, st)
                  | (Inr template_components, st) \<Rightarrow>
                      (case collect_components pf os depth (findall entity ''COMPONENT'')
                              components_map templates_map gsa_dir [] st of
                         (Inl e, st) \<Rightarrow> (Inl e, st)
                       | (Inr instance_components, st) \<Rightarrow>
                           (let final_components =
                                  update_dict template_components instance_components
                            in (Inr (Some
                                 \<lparr>name = get entity ''Name'',
                                  class_name = get entity ''Class'',
                                  type_name = get entity ''Type'',
                                  template_id = get template_entity ''LinkID'',
                                  instance_id = get entity ''LinkID'',
                                  components = map snd final_components\<rparr>), st))))))"

section \<open>The two streaming passes\<close>

text \<open>
  \<^verbatim>\<open>etree.iterparse(path, events=('end',), tag=tags)\<close> together with the two statements
  that end each loop body of \<^verbatim>\<open>main\<close>: an element whose tag is in \<open>tags\<close> is handed to
  the loop when its end tag is read, that is after all its descendants, and then the
  loop clears it and deletes the siblings that precede it from its parent. \<open>walk\<close> returns
  the elements in the order and in the shape in which the loop body sees them, and the
  element as it is left in the tree. The third argument of \<open>walk_children\<close> holds the
  children already read that are still in the parent.
\<close>

fun walk :: "string list \<Rightarrow> element \<Rightarrow> element list \<times> element"
  and walk_children ::
    "string list \<Rightarrow> element list \<Rightarrow> element list \<Rightarrow> element list \<times> element list" where
  "walk tags (Element t a tx cs) =
     (let (evs, cs') = walk_children tags cs []
      in if t \<in> set tags then (evs @ [Element t a tx cs'], clear (Element t a tx cs'))
         else (evs, Element t a tx cs'))"
| "walk_children tags [] kept = ([], kept)"
| "walk_children tags (c # cs) kept =
     (let (evs_c, c') = walk tags c;
          kept = (if tag c \<in> set tags then [c'] else kept @ [c']);
          (evs, final) = walk_children tags cs kept
      in (evs_c @ evs, final))"

definition iterparse :: "string list \<Rightarrow> element \<Rightarrow> element list" where
  "iterparse tags doc = fst (walk tags doc)"

text \<open>
  The first pass stores the element objects themselves in the two dictionaries and
  clears each of them before the next one is read. An object is identified by the
  number of its event; the dictionaries hold these numbers and \<open>heap\<close> holds what the
  objects contain.
\<close>

record link_index =
  components_map :: "(string \<times> nat) list"
  templates_map :: "(string \<times> nat) list"
  heap :: "element list"

text \<open>Lines 256 to 264 for the element of event \<open>i\<close>.\<close>

definition first_pass_step :: "nat \<times> element \<Rightarrow> link_index \<Rightarrow> link_index" where
  "first_pass_step ev idx =
     (let (i, element) = ev in
      if tag element = ''COMPONENT'' then
        (let link_id = get element ''LinkID'' in
         if truthy link_id
         then idx\<lparr>components_map := setitem (the link_id) i (components_map idx)\<rparr>
         else idx)
      else if tag element = ''ENTITY'' then
        (if get element ''MasterLinkID'' = None then
           (let link_id = get element ''LinkID'' in
            if truthy link_id
            then idx\<lparr>templates_map := setitem (the link_id) i (templates_map idx)\<rparr>
            else idx)
         else idx)
      else idx)"

text \<open>Line 266 for the element of event \<open>i\<close>.\<close>

definition clear_step :: "nat \<times> element \<Rightarrow> link_index \<Rightarrow> link_index" where
  "clear_step ev idx = idx\<lparr>heap := heap idx @ [clear (snd ev)]\<rparr>"

definition first_pass :: "element \<Rightarrow> state \<Rightarrow> link_index \<times> state" where
  "first_pass doc st =
     (let st = logging First_pass_start st;
          events = iterparse [''ENTITY'', ''COMPONENT''] doc;
          idx = fold (\<lambda>ev idx. clear_step ev (first_pass_step ev idx))
                  (zip [0..<length events] events)
                  \<lparr>components_map = [], templates_map = [], heap = []\<rparr>;
          st = logging (First_pass_complete (length (components_map idx))
                          (length (templates_map idx))) st
      in (idx, st))"

text \<open>
  How lines 256 to 264 fill one dictionary, taken by itself: of the numbered events
  \<open>evs\<close>, each one of the kind \<open>P\<close> with a non-empty \<^verbatim>\<open>LinkID\<close> is entered under it.
\<close>

definition bind_links :: "(element \<Rightarrow> bool) \<Rightarrow> (nat \<times> element) list \<Rightarrow> (string \<times> nat) list
                            \<Rightarrow> (string \<times> nat) list" where
  "bind_links P evs m =
     fold (\<lambda>(i, e) m. if P e \<and> truthy (get e ''LinkID'')
                       then setitem (the (get e ''LinkID'')) i m else m) evs m"

text \<open>What a dictionary of the first pass gives for a key once the pass is over.\<close>

definition deref :: "element list \<Rightarrow> (string \<times> nat) list \<Rightarrow> (string \<rightharpoonup> element)" where
  "deref h m = (\<lambda>k. map_option (\<lambda>i. h ! i) (map_of m k))"

text \<open>The loop of lines 276 to 283; \<open>scene\<close> is \<^verbatim>\<open>scene_data['entities']\<close>.\<close>

fun second_pass_loop ::
  "(string \<Rightarrow> 'f option) \<Rightarrow> os_name \<Rightarrow> nat \<Rightarrow> element list \<Rightarrow> (string \<rightharpoonup> element)
     \<Rightarrow> (string \<rightharpoonup> element) \<Rightarrow> string \<Rightarrow> 'f entity_data list \<Rightarrow> state
     \<Rightarrow> (exn + 'f entity_data list) \<times> state" where
  "second_pass_loop pf os depth [] cmap tmap gsa_dir scene st = (Inr scene, st)"
| "second_pass_loop pf os depth (entity # es) cmap tmap gsa_dir scene st =
     (if get entity ''MasterLinkID'' \<noteq> None then
        (case get_entity_data pf os depth entity cmap tmap gsa_dir st of
           (Inl e, st) \<Rightarrow> (Inl e, st)
         | (Inr None, st) \<Rightarrow> second_pass_loop pf os depth es cmap tmap gsa_dir scene st
         | (Inr (Some entity_data), st) \<Rightarrow>
             second_pass_loop pf os depth es cmap tmap gsa_dir (scene @ [entity_data]) st)
      else second_pass_loop pf os depth es cmap tmap gsa_dir scene st)"

definition second_pass ::
  "(string \<Rightarrow> 'f option) \<Rightarrow> os_name \<Rightarrow> nat \<Rightarrow> element \<Rightarrow> (string \<rightharpoonup> element)
     \<Rightarrow> (string \<rightharpoonup> element) \<Rightarrow> string \<Rightarrow> state \<Rightarrow> (exn + 'f entity_data list) \<times> state" where
  "second_pass pf os depth doc cmap tmap gsa_dir st =
     (case second_pass_loop pf os depth (iterparse [''ENTITY''] doc) cmap tmap gsa_dir []
             (logging Second_pass_start st) of
        (Inl e, st) \<Rightarrow> (Inl e, st)
      | (Inr scene, st) \<Rightarrow> (Inr scene, logging Second_pass_complete st))"

text \<open>
  Lines 248 to 285 of \<^verbatim>\<open>main\<close>: both passes over the document \<open>doc\<close>. An exception
  leaves the \<^verbatim>\<open>try\<close> block before the output is written.
\<close>

definition convert ::
  "(string \<Rightarrow> 'f option) \<Rightarrow> os_name \<Rightarrow> nat \<Rightarrow> element \<Rightarrow> string \<Rightarrow> state
     \<Rightarrow> (exn + 'f entity_data list) \<times> state" where
  "convert pf os depth doc gsa_dir st =
     (let (idx, st) = first_pass doc st
      in second_pass pf os depth doc (deref (heap idx) (components_map idx))
           (deref (heap idx) (templates_map idx)) gsa_dir st)"

section \<open>Concrete inputs\<close>

text \<open>The inputs at which the properties below are evaluated.\<close>

definition st0 :: state where
  "st0 = \<lparr>logged = [], unhandled = {}\<rparr>"

text \<open>The relative path \<^verbatim>\<open>..\..\00_Object\model.nif\<close>.\<close>

definition ex_nif :: string where
  "ex_nif = ''..'' @ [bsl] @ ''..'' @ [bsl] @ ''00_Object'' @ [bsl] @ ''model.nif''"

text \<open>The relative path \<^verbatim>\<open>Data\\x.nif\<close>, with a doubled backslash.\<close>

definition double_nif :: string where
  "double_nif = ''Data'' @ [bsl, bsl] @ ''x.nif''"

text \<open>
  A stand-in for \<^verbatim>\<open>float\<close> on the literals that the inputs below contain; the
  properties that are evaluated with it do not depend on what it does elsewhere.
\<close>

definition pf_ex :: "string \<Rightarrow> rat option" where
  "pf_ex s =
     (if s = ''1'' \<or> s = ''1.0'' then Some 1
      else if s = ''2'' \<or> s = ''2.0'' then Some 2
      else if s = ''3'' then Some 3
      else if s = ''0.5'' then Some (1 / 2)
      else None)"

text \<open>A \<^verbatim>\<open>COMPONENT\<close> child of an entity, referring to the component \<open>l\<close>.\<close>

abbreviation comp_ref :: "string \<Rightarrow> element" where
  "comp_ref l \<equiv> Element ''COMPONENT'' [(''RefLinkID'', l)] None []"

text \<open>
  Component \<^verbatim>\<open>A\<close> defines only a scale and names \<^verbatim>\<open>B\<close> as its master; \<^verbatim>\<open>B\<close> defines a
  translation.
\<close>

definition comp_a :: element where
  "comp_a = Element ''COMPONENT''
     [(''Class'', ''NiTransformationComponent''), (''Name'', ''A''), (''LinkID'', ''1''),
      (''MasterLinkID'', ''2'')] None
     [Element ''PROPERTY'' [(''Name'', ''Scale'')] (Some ''0.5'') []]"

definition comp_b :: element where
  "comp_b = Element ''COMPONENT''
     [(''Class'', ''NiTransformationComponent''), (''Name'', ''B''), (''LinkID'', ''2'')] None
     [Element ''PROPERTY'' [(''Name'', ''Translation'')] (Some ''1,2,3'') []]"

definition master_map :: "string \<rightharpoonup> element" where
  "master_map = [''1'' \<mapsto> comp_a, ''2'' \<mapsto> comp_b]"

text \<open>A component that names itself as its master.\<close>

definition cyclic_comp :: element where
  "cyclic_comp = Element ''COMPONENT''
     [(''Class'', ''NiGeneralComponent''), (''Name'', ''Loop''), (''LinkID'', ''1''),
      (''MasterLinkID'', ''1'')] None []"

definition cyclic_map :: "string \<rightharpoonup> element" where
  "cyclic_map = [''1'' \<mapsto> cyclic_comp]"

text \<open>A scene-graph component whose path has no \<^verbatim>\<open>Data\<close> segment in the directory \<^verbatim>\<open>maps\<close>.\<close>

definition scene_comp :: element where
  "scene_comp = Element ''COMPONENT''
     [(''Class'', ''NiSceneGraphComponent''), (''Name'', ''Mesh''), (''LinkID'', ''5'')] None
     [Element ''PROPERTY'' [(''Name'', ''NIF File Path'')] (Some ''model.nif'') []]"

definition scene_map :: "string \<rightharpoonup> element" where
  "scene_map = [''5'' \<mapsto> scene_comp]"

text \<open>
  A light named \<^verbatim>\<open>Sun\<close> with the link identifier \<^verbatim>\<open>7\<close>, one of whose properties is
  called \<^verbatim>\<open>Link ID\<close> and another \<^verbatim>\<open>Name\<close>.
\<close>

definition light_comp :: element where
  "light_comp = Element ''COMPONENT''
     [(''Class'', ''NiLightComponent''), (''Name'', ''Sun''), (''LinkID'', ''7'')] None
     [Element ''PROPERTY'' [(''Name'', ''Link ID''), (''Class'', ''Float'')] (Some ''3'') [],
      Element ''PROPERTY'' [(''Name'', ''Name''), (''Class'', ''Entity Pointer'')] None
        [Element ''ITEM'' [(''RefLinkID'', ''9'')] None []]]"

definition light_map :: "string \<rightharpoonup> element" where
  "light_map = [''7'' \<mapsto> light_comp]"

text \<open>A light with one float property whose name has a space.\<close>

definition dimmer_comp :: element where
  "dimmer_comp = Element ''COMPONENT''
     [(''Class'', ''NiLightComponent''), (''Name'', ''Spot''), (''LinkID'', ''8'')] None
     [Element ''PROPERTY'' [(''Name'', ''Dimmer Value''), (''Class'', ''Float'')]
        (Some '' 2.0 '') []]"

text \<open>A light with one colour property that has two numbers.\<close>

definition colour_comp :: element where
  "colour_comp = Element ''COMPONENT''
     [(''Class'', ''NiLightComponent''), (''Name'', ''Glow''), (''LinkID'', ''9'')] None
     [Element ''PROPERTY'' [(''Name'', ''Ambient Color''), (''Class'', ''Color (RGB)'')]
        (Some ''1, 2'') []]"

text \<open>Two components of an unknown class with one name, and one that is ignored.\<close>

definition foo_comp :: element where
  "foo_comp = Element ''COMPONENT''
     [(''Class'', ''NiFooBarComponent''), (''Name'', ''Foo''), (''LinkID'', ''3'')] None []"

definition foo_comp2 :: element where
  "foo_comp2 = Element ''COMPONENT''
     [(''Class'', ''NiFooBarComponent''), (''Name'', ''Foo''), (''LinkID'', ''4'')] None []"

definition collision_comp :: element where
  "collision_comp = Element ''COMPONENT''
     [(''Class'', ''NiCollisionComponent''), (''Name'', ''Hull''), (''LinkID'', ''6'')] None []"

definition foo_map :: "string \<rightharpoonup> element" where
  "foo_map = [''3'' \<mapsto> foo_comp, ''4'' \<mapsto> foo_comp2, ''6'' \<mapsto> collision_comp]"

text \<open>
  A template entity with the component \<^verbatim>\<open>Root\<close> (scale \<^verbatim>\<open>1.0\<close> and a translation), an
  instance of it that overrides \<^verbatim>\<open>Root\<close> with a component of scale \<^verbatim>\<open>2.0\<close>, and an instance
  of a template that does not exist.
\<close>

definition root_template :: element where
  "root_template = Element ''COMPONENT''
     [(''Class'', ''NiTransformationComponent''), (''Name'', ''Root''), (''LinkID'', ''20'')] None
     [Element ''PROPERTY'' [(''Name'', ''Translation'')] (Some ''1,2,3'') [],
      Element ''PROPERTY'' [(''Name'', ''Scale'')] (Some ''1.0'') []]"

definition root_instance :: element where
  "root_instance = Element ''COMPONENT''
     [(''Class'', ''NiTransformationComponent''), (''Name'', ''Root''), (''LinkID'', ''21'')] None
     [Element ''PROPERTY'' [(''Name'', ''Scale'')] (Some ''2.0'') []]"

definition root_map :: "string \<rightharpoonup> element" where
  "root_map = [''20'' \<mapsto> root_template, ''21'' \<mapsto> root_instance]"

definition template_entity :: element where
  "template_entity = Element ''ENTITY''
     [(''Class'', ''NiEntity''), (''Name'', ''Tree''), (''LinkID'', ''100'')] None
     [comp_ref ''20'']"

definition instance_entity :: element where
  "instance_entity = Element ''ENTITY''
     [(''Class'', ''NiEntity''), (''Name'', ''Tree 01''), (''LinkID'', ''101''),
      (''MasterLinkID'', ''100'')] None
     [comp_ref ''21'']"

definition orphan_entity :: element where
  "orphan_entity = Element ''ENTITY''
     [(''Class'', ''NiEntity''), (''Name'', ''Lost''), (''LinkID'', ''102''),
      (''MasterLinkID'', ''999'')] None
     [comp_ref ''21'']"

definition entity_templates :: "string \<rightharpoonup> element" where
  "entity_templates = [''100'' \<mapsto> template_entity]"

text \<open>An instance of the template \<^verbatim>\<open>Tree\<close> whose one component is the light \<^verbatim>\<open>Sun\<close>.\<close>

definition light_entity :: element where
  "light_entity = Element ''ENTITY''
     [(''Class'', ''NiEntity''), (''Name'', ''Lamp 01''), (''LinkID'', ''103''),
      (''MasterLinkID'', ''100'')] None
     [comp_ref ''7'']"

text \<open>
  A document with the two components \<^verbatim>\<open>Root\<close>, the template \<^verbatim>\<open>Tree\<close> and its instance
  \<^verbatim>\<open>Tree 01\<close>.
\<close>

definition tree_doc :: element where
  "tree_doc = Element ''GSA'' [] None
     [root_template, root_instance, template_entity, instance_entity]"

section \<open>Strings and paths\<close>

lemmas path_eval = get_unreal_asset_path_def ntpath_join_def ntpath_splitdrive_def
        ntpath_normpath_def posixpath_join_def posixpath_normpath_def
        replace_char_def is_sep_def endswith_def startswith_def lower_def lower_char_def
        upper_def upper_char_def unc_prefix_def find_from_def upper_letters_def
        lower_letters_def Let_def

lemma index_of_first: "x \<notin> set pre \<Longrightarrow> index_of x (pre @ x # suf) = Some (length pre)"
  by (induction pre) auto

lemma split_on_nonempty: "split_on c s \<noteq> []"
  by (induction s) (auto split: list.splits)

lemma split_on_no_sep: "p \<in> set (split_on c s) \<Longrightarrow> c \<notin> set p"
proof (induction s arbitrary: p)
  case Nil then show ?case by simp
next
  case (Cons x xs)
  then show ?case
    by (cases "split_on c xs") (auto split: if_splits)
qed

lemma split_on_subset: "p \<in> set (split_on c s) \<Longrightarrow> set p \<subseteq> set s"
proof (induction s arbitrary: p)
  case Nil then show ?case by simp
next
  case (Cons x xs)
  show ?case
  proof (cases "split_on c xs")
    case Nil
    with Cons.prems show ?thesis by (auto split: if_splits)
  next
    case (Cons w ws)
    have w: "set w \<subseteq> set xs" and ws: "\<And>q. q \<in> set ws \<Longrightarrow> set q \<subseteq> set xs"
      using Cons.IH Cons by auto
    from Cons.prems Cons show ?thesis
      using w ws by (auto split: if_splits)
  qed
qed

lemma replace_char_absent: "a \<noteq> b \<Longrightarrow> a \<notin> set (replace_char a b s)"
  by (auto simp: replace_char_def)

lemma replace_char_id: "a \<notin> set s \<Longrightarrow> replace_char a b s = s"
  by (induction s) (auto simp: replace_char_def)

lemma set_join_with: "set (join_with sep ps) \<subseteq> set sep \<union> \<Union> (set ` set ps)"
  by (induction sep ps rule: join_with.induct) auto

lemma lower_length: "length (lower s) = length s"
  by (simp add: lower_def)

lemma endswith_lower_iff:
  "endswith (lower s) t \<longleftrightarrow> (\<exists>base ext. s = base @ ext \<and> lower ext = t)"
proof
  assume h: "endswith (lower s) t"
  then have "s = take (length s - length t) s @ drop (length s - length t) s" by simp
  moreover from h have "lower (drop (length s - length t) s) = t"
    by (simp add: endswith_def lower_def drop_map)
  ultimately show "\<exists>base ext. s = base @ ext \<and> lower ext = t" by blast
next
  assume "\<exists>base ext. s = base @ ext \<and> lower ext = t"
  then obtain base ext where "s = base @ ext" "lower ext = t" by blast
  then show "endswith (lower s) t"
    by (auto simp: endswith_def lower_def)
qed

lemma ntpath_splitdrive_relative:
  assumes "take 1 c \<noteq> ''/''" "take 1 c \<noteq> [bsl]" "take 1 (drop 1 c) \<noteq> '':''"
  shows "ntpath_splitdrive c = ([], c)"
proof (cases c)
  case Nil then show ?thesis by (simp add: ntpath_splitdrive_def)
next
  case (Cons x xs)
  with assms have "x \<noteq> CHR ''/''" "x \<noteq> bsl" by auto
  moreover from assms Cons have "take 1 xs \<noteq> '':''" by simp
  ultimately show ?thesis using Cons
    by (cases xs) (auto simp: ntpath_splitdrive_def replace_char_def Let_def)
qed

lemma ntpath_splitdrive_Game: "ntpath_splitdrive ''/Game'' = ([], ''/Game'')"
  by (simp add: ntpath_splitdrive_def replace_char_def)

lemma ntpath_join_Game:
  assumes "take 1 c \<noteq> ''/''" "take 1 c \<noteq> [bsl]" "take 1 (drop 1 c) \<noteq> '':''"
  shows "ntpath_join ''/Game'' c = ''/Game'' @ [bsl] @ c"
proof -
  have hd: "c \<noteq> [] \<Longrightarrow> \<not> is_sep (hd c)"
    using assms by (cases c) (auto simp: is_sep_def)
  show ?thesis
    using hd by (auto simp add: ntpath_join_def ntpath_splitdrive_Game
        ntpath_splitdrive_relative[OF assms] is_sep_def)
qed

lemma posixpath_join_Game:
  assumes "take 1 c \<noteq> ''/''"
  shows "posixpath_join ''/Game'' c = ''/Game/'' @ c"
  using assms by (simp add: posixpath_join_def startswith_def endswith_def)

lemma path_join_Game:
  assumes "take 1 c \<noteq> ''/''" "bsl \<notin> set c" "os = Nt \<longrightarrow> take 1 (drop 1 c) \<noteq> '':''"
  shows "replace_char bsl (CHR ''/'') (path_join os ''/Game'' c) = ''/Game/'' @ c"
proof (cases os)
  case Posix
  have "replace_char bsl (CHR ''/'') (''/Game/'' @ c) = ''/Game/'' @ c"
    using replace_char_id[OF assms(2), of "CHR ''/''"] by (simp add: replace_char_def)
  then show ?thesis using Posix posixpath_join_Game[OF assms(1)] by simp
next
  case Nt
  have t1: "take 1 c \<noteq> [bsl]" using assms(2) by (cases c) auto
  have "replace_char bsl (CHR ''/'') (''/Game'' @ [bsl] @ c) = ''/Game/'' @ c"
    using replace_char_id[OF assms(2), of "CHR ''/''"] by (simp add: replace_char_def)
  then show ?thesis using Nt ntpath_join_Game[OF assms(1) t1] assms(3) by simp
qed

section \<open>Path resolution\<close>

lemma no_bsl_clean:
  assumes "split_on (CHR ''/'') (replace_char bsl (CHR ''/'') x) = pre @ d # suf"
  shows "bsl \<notin> set (join_with ''/'' suf)"
proof -
  have "\<And>p. p \<in> set suf \<Longrightarrow> bsl \<notin> set p"
  proof -
    fix p assume "p \<in> set suf"
    then have "p \<in> set (split_on (CHR ''/'') (replace_char bsl (CHR ''/'') x))"
      using assms by simp
    then have "set p \<subseteq> set (replace_char bsl (CHR ''/'') x)" by (rule split_on_subset)
    then show "bsl \<notin> set p" using replace_char_absent[of bsl "CHR ''/''" x] by auto
  qed
  then show ?thesis using set_join_with[of "''/''" suf] by auto
qed

text \<open>
  What the path helper does on either host when the segment \<^verbatim>\<open>Data\<close> is found: the
  segments after its first occurrence are joined by slashes, a final \<^verbatim>\<open>.nif\<close> in any
  letter case is cut off, and \<^verbatim>\<open>/Game/\<close> is put in front, provided that what is left
  does not begin with a slash and, on Windows, has no colon as its second character.
\<close>

lemma get_unreal_asset_path_found:
  assumes "nif \<noteq> []"
    and parts: "split_on (CHR ''/'')
                  (replace_char bsl (CHR ''/'') (normpath os (path_join os gsa_dir nif)))
            = pre @ ''Data'' # suf"
    and first: "''Data'' \<notin> set pre"
    and clean: "clean = (if endswith (lower (join_with ''/'' suf)) ''.nif''
                  then take (length (join_with ''/'' suf) - 4) (join_with ''/'' suf)
                  else join_with ''/'' suf)"
    and rel: "take 1 clean \<noteq> ''/''" "os = Nt \<longrightarrow> take 1 (drop 1 clean) \<noteq> '':''"
  shows "get_unreal_asset_path os nif gsa_dir st = (Some (''/Game/'' @ clean), st)"
proof -
  have nb: "bsl \<notin> set (join_with ''/'' suf)" using parts by (rule no_bsl_clean)
  have "set clean \<subseteq> set (join_with ''/'' suf)"
    unfolding clean by (auto dest: in_set_takeD)
  with nb have nbc: "bsl \<notin> set clean" by auto
  have rp: "replace_char bsl (CHR ''/'') (path_join os ''/Game'' clean) = ''/Game/'' @ clean"
    using rel(1) nbc rel(2) by (rule path_join_Game)
  have ix: "index_of ''Data'' (pre @ ''Data'' # suf) = Some (length pre)"
    using first by (rule index_of_first)
  have "get_unreal_asset_path os nif gsa_dir st =
          (Some (replace_char bsl (CHR ''/'') (path_join os ''/Game'' clean)), st)"
    using assms(1) by (simp add: get_unreal_asset_path_def parts ix Let_def clean)
  then show ?thesis by (simp only: rp)
qed

section \<open>Dictionaries\<close>

lemma map_of_setitem: "map_of (setitem k v d) = (map_of d)(k \<mapsto> v)"
  by (induction d) (auto simp: fun_eq_iff)

lemma keys_setitem_map: "set (map fst (setitem k v d)) = insert k (set (map fst d))"
proof (induction d)
  case Nil then show ?case by simp
next
  case (Cons p d)
  obtain a b where p: "p = (a, b)" by (cases p)
  show ?case
  proof (cases "a = k")
    case True
    then show ?thesis using p by auto
  next
    case False
    then have "setitem k v (p # d) = p # setitem k v d" using p by simp
    then show ?thesis using Cons.IH by auto
  qed
qed

lemma keys_setitem: "fst ` set (setitem k v d) = insert k (fst ` set d)"
  using keys_setitem_map[of k v d] by simp

lemma distinct_setitem: "distinct (map fst d) \<Longrightarrow> distinct (map fst (setitem k v d))"
proof (induction d)
  case Nil then show ?case by simp
next
  case (Cons p d)
  then show ?case using keys_setitem[of k v d] by (cases p) auto
qed

lemma setitem_fresh: "k \<notin> fst ` set d \<Longrightarrow> setitem k v d = d @ [(k, v)]"
  by (induction d) auto

lemma map_of_update_dict:
  "map_of (update_dict d other) = map_of d ++ map_of (rev other)"
  unfolding update_dict_def
proof (induction other arbitrary: d)
  case Nil then show ?case by simp
next
  case (Cons p other)
  show ?case
    by (cases p) (simp add: Cons.IH map_of_setitem fun_eq_iff map_add_def split: option.splits)
qed

lemma keys_update_dict: "fst ` set (update_dict d other) = fst ` set d \<union> fst ` set other"
  unfolding update_dict_def
proof (induction other arbitrary: d)
  case Nil then show ?case by simp
next
  case (Cons p other)
  show ?case by (cases p) (auto simp: Cons.IH keys_setitem)
qed

lemma distinct_update_dict:
  "distinct (map fst d) \<Longrightarrow> distinct (map fst (update_dict d other))"
  unfolding update_dict_def
proof (induction other arbitrary: d)
  case Nil then show ?case by simp
next
  case (Cons p other)
  then show ?case by (cases p) (simp add: distinct_setitem)
qed

lemma update_dict_fresh:
  "distinct (map fst other) \<Longrightarrow> fst ` set d \<inter> fst ` set other = {}
     \<Longrightarrow> update_dict d other = d @ other"
  unfolding update_dict_def
proof (induction other arbitrary: d)
  case Nil then show ?case by simp
next
  case (Cons p other)
  obtain k v where p: "p = (k, v)" by (cases p)
  have k: "k \<notin> fst ` set d" using Cons.prems p by auto
  have "fold (\<lambda>(k, v). setitem k v) other (d @ [(k, v)]) = (d @ [(k, v)]) @ other"
    using Cons.prems p by (intro Cons.IH) auto
  then show ?case using p k by (simp add: setitem_fresh)
qed

lemma update_dict_empty: "distinct (map fst d) \<Longrightarrow> update_dict [] d = d"
  using update_dict_fresh[of d "[]"] by simp

lemma map_of_rev_distinct: "distinct (map fst d) \<Longrightarrow> map_of (rev d) = map_of d"
  using update_dict_empty[of d] map_of_update_dict[of "[]" d] by simp

section \<open>Effects of the parsers\<close>

lemma unhandled_logging [simp]: "unhandled (logging e st) = unhandled st"
  by (simp add: logging_def)

lemma guap_unhandled: "unhandled (snd (get_unreal_asset_path os nif dir st)) = unhandled st"
  by (simp add: get_unreal_asset_path_def Let_def split: option.splits)

lemma guap_fst: "fst (get_unreal_asset_path os nif dir st) = fst (get_unreal_asset_path os nif dir st')"
  by (simp add: get_unreal_asset_path_def Let_def split: option.splits)

lemma index_of_None_iff: "index_of x xs = None \<longleftrightarrow> x \<notin> set xs"
  by (induction xs) auto

lemma guap_None_iff:
  "fst (get_unreal_asset_path os nif dir st) = None \<longleftrightarrow>
     nif = [] \<or> ''Data'' \<notin> set (split_on (CHR ''/'')
                     (replace_char bsl (CHR ''/'') (normpath os (path_join os dir nif))))"
  by (auto simp: get_unreal_asset_path_def Let_def index_of_None_iff[symmetric]
           split: option.splits)

lemma ptr_unhandled: "unhandled (snd (transform_translation pf c acc)) = unhandled (snd acc)"
  by (cases acc) (simp add: transform_translation_def split: option.splits)

lemma pro_unhandled: "unhandled (snd (transform_rotation pf c acc)) = unhandled (snd acc)"
  by (cases acc) (simp add: transform_rotation_def Let_def split: option.splits)

lemma psc_unhandled: "unhandled (snd (transform_scale pf c acc)) = unhandled (snd acc)"
  by (cases acc) (simp add: transform_scale_def split: option.splits)

lemma pt_unhandled: "unhandled (snd (parse_transform pf c st)) = unhandled st"
  by (simp add: parse_transform_def ptr_unhandled pro_unhandled psc_unhandled)

lemma ptr_fst: "fst (transform_translation pf c (d, st)) = fst (transform_translation pf c (d, st'))"
  by (simp add: transform_translation_def split: option.splits)

lemma pro_fst: "fst (transform_rotation pf c (d, st)) = fst (transform_rotation pf c (d, st'))"
  by (simp add: transform_rotation_def Let_def split: option.splits)

lemma psc_fst: "fst (transform_scale pf c (d, st)) = fst (transform_scale pf c (d, st'))"
  by (simp add: transform_scale_def split: option.splits)

lemma pt_fst: "fst (parse_transform pf c st) = fst (parse_transform pf c st')"
proof -
  obtain d1 s1 where a: "transform_translation pf c ([], st) = (d1, s1)" by force
  obtain d1' s1' where a': "transform_translation pf c ([], st') = (d1', s1')" by force
  have e1: "d1 = d1'" using ptr_fst[of pf c "[]" st st'] a a' by simp
  obtain d2 s2 where b: "transform_rotation pf c (d1, s1) = (d2, s2)" by force
  obtain d2' s2' where b': "transform_rotation pf c (d1, s1') = (d2', s2')" by force
  have e2: "d2 = d2'" using pro_fst[of pf c d1 s1 s1'] b b' by simp
  show ?thesis
    using psc_fst[of pf c d2 s2 s2'] a a' b b' e1 e2 by (simp add: parse_transform_def)
qed

lemma ptr_keys:
  "k \<in> fst ` set (fst (transform_translation pf c (d, st))) \<Longrightarrow>
     k = ''translation'' \<or> k \<in> fst ` set d"
  by (auto simp: transform_translation_def keys_setitem split: option.splits if_splits)

lemma pro_keys:
  "k \<in> fst ` set (fst (transform_rotation pf c (d, st))) \<Longrightarrow>
     k = ''rotation'' \<or> k \<in> fst ` set d"
  by (auto simp: transform_rotation_def Let_def keys_setitem split: option.splits if_splits)

lemma psc_keys:
  "k \<in> fst ` set (fst (transform_scale pf c (d, st))) \<Longrightarrow>
     k = ''scale'' \<or> k \<in> fst ` set d"
  by (auto simp: transform_scale_def keys_setitem split: option.splits if_splits)

lemma pt_keys:
  assumes "k \<in> fst ` set (fst (parse_transform pf c st))"
  shows "k = ''translation'' \<or> k = ''rotation'' \<or> k = ''scale''"
proof -
  obtain d1 s1 where a: "transform_translation pf c ([], st) = (d1, s1)" by force
  obtain d2 s2 where b: "transform_rotation pf c (d1, s1) = (d2, s2)" by force
  have "fst (parse_transform pf c st) = fst (transform_scale pf c (d2, s2))"
    by (simp add: parse_transform_def a b)
  with assms have "k \<in> fst ` set (fst (transform_scale pf c (d2, s2)))" by simp
  then have "k = ''scale'' \<or> k \<in> fst ` set d2" by (rule psc_keys)
  moreover have "k = ''rotation'' \<or> k \<in> fst ` set d1" if "k \<in> fst ` set d2"
  proof -
    from that b have "k \<in> fst ` set (fst (transform_rotation pf c (d1, s1)))" by simp
    then show ?thesis by (rule pro_keys)
  qed
  moreover have "k = ''translation''" if "k \<in> fst ` set d1"
  proof -
    from that a have "k \<in> fst ` set (fst (transform_translation pf c ([], st)))" by simp
    then show ?thesis using ptr_keys[of k pf c "[]" st] by simp
  qed
  ultimately show ?thesis by blast
qed

lemma plp_unhandled: "unhandled (snd (parse_light_prop pf p acc)) = unhandled (snd acc)"
  by (cases acc) (simp add: parse_light_prop_def Let_def split: option.splits)

lemma plp_fst:
  "fst (parse_light_prop pf p (d, st)) = fst (parse_light_prop pf p (d, st'))"
  by (simp add: parse_light_prop_def Let_def split: option.splits)

lemma plp_keys:
  "fst ` set (fst (parse_light_prop pf p (d, st))) \<subseteq>
     fst ` set d \<union> key_name ` {n. get p ''Name'' = Some n}"
  by (auto simp: parse_light_prop_def Let_def keys_setitem truthy_def
           split: option.splits if_splits)

lemma pl_fold_unhandled:
  "unhandled (snd (fold (parse_light_prop pf) ps acc)) = unhandled (snd acc)"
  by (induction ps arbitrary: acc) (simp_all add: plp_unhandled)

lemma pl_fold_fst:
  "fst (fold (parse_light_prop pf) ps (d, st)) = fst (fold (parse_light_prop pf) ps (d, st'))"
proof (induction ps arbitrary: d st st')
  case Nil then show ?case by simp
next
  case (Cons p ps)
  obtain d1 st1 where a: "parse_light_prop pf p (d, st) = (d1, st1)" by force
  obtain d2 st2 where b: "parse_light_prop pf p (d, st') = (d2, st2)" by force
  have "d1 = d2" using plp_fst[of pf p d st st'] a b by simp
  then show ?case using a b Cons.IH[of d1 st1 st2] by simp
qed

lemma pl_fold_keys:
  "k \<in> fst ` set (fst (fold (parse_light_prop pf) ps (d, st))) \<Longrightarrow>
     k \<in> fst ` set d \<or> (\<exists>p \<in> set ps. \<exists>n. get p ''Name'' = Some n \<and> k = key_name n)"
proof (induction ps arbitrary: d st)
  case Nil then show ?case by simp
next
  case (Cons p ps)
  obtain d1 st1 where a: "parse_light_prop pf p (d, st) = (d1, st1)" by force
  from Cons.prems a have "k \<in> fst ` set (fst (fold (parse_light_prop pf) ps (d1, st1)))"
    by simp
  then have "k \<in> fst ` set d1 \<or> (\<exists>p \<in> set ps. \<exists>n. get p ''Name'' = Some n \<and> k = key_name n)"
    by (rule Cons.IH)
  then show ?case
  proof
    assume "k \<in> fst ` set d1"
    then have "k \<in> fst ` set d \<union> key_name ` {n. get p ''Name'' = Some n}"
      using plp_keys[of pf p d st] a by auto
    then show ?thesis by auto
  next
    assume "\<exists>p \<in> set ps. \<exists>n. get p ''Name'' = Some n \<and> k = key_name n"
    then show ?thesis by auto
  qed
qed

lemma pl_unhandled: "unhandled (snd (parse_light pf c st)) = unhandled st"
  by (simp add: parse_light_def pl_fold_unhandled)

lemma pl_fst: "fst (parse_light pf c st) = fst (parse_light pf c st')"
  unfolding parse_light_def by (rule pl_fold_fst)

lemma pl_keys:
  "k \<in> fst ` set (fst (parse_light pf c st)) \<Longrightarrow>
     \<exists>p \<in> set (findall c ''PROPERTY''). \<exists>n. get p ''Name'' = Some n \<and> k = key_name n"
  unfolding parse_light_def using pl_fold_keys[of k pf "findall c ''PROPERTY''" "[]" st] by simp

lemma sgb_unhandled: "unhandled (snd (scene_graph_body os c dir acc)) = unhandled (snd acc)"
proof -
  obtain d st where acc: "acc = (d, st)" by (cases acc)
  have g: "\<And>n. unhandled (snd (get_unreal_asset_path os n dir st)) = unhandled st"
    by (rule guap_unhandled)
  show ?thesis
    unfolding acc scene_graph_body_def Let_def
    by (simp add: g split_beta split: option.splits)
qed

lemma sgb_fst:
  "fst (scene_graph_body os c dir (d, st)) =
     (case (if find_property c ''Scene Root'' = None
            then find_property c ''NIF File Path''
            else find_property c ''Scene Root'') of
        None \<Rightarrow> d
      | Some prop \<Rightarrow>
          if truthy (etext prop)
          then setitem ''nif_path_rel'' (PStr (strip (the (etext prop))))
                 (setitem ''unreal_path''
                    (opt_str (fst (get_unreal_asset_path os (strip (the (etext prop))) dir st)))
                    d)
          else d)"
  by (simp add: scene_graph_body_def Let_def split_beta split: option.splits)

section \<open>The body of component resolution\<close>

lemma body_fst:
  "fst (component_body pf os l c dir data st) =
     (let d3 = setitem ''name'' (opt_str (get c ''Name''))
                 (setitem ''class'' (opt_str (get c ''Class''))
                    (setitem ''link_id'' (PStr l) data))
      in if get c ''Class'' = Some ''NiTransformationComponent''
         then update_dict d3 (fst (parse_transform pf c st))
         else if get c ''Class'' = Some ''NiSceneGraphComponent''
         then fst (scene_graph_body os c dir (d3, st))
         else if get c ''Class'' = Some ''NiLightComponent''
         then update_dict d3 (fst (parse_light pf c st))
         else d3)"
  by (simp add: component_body_def Let_def split_beta)

lemma body_unhandled:
  "unhandled (snd (component_body pf os l c dir data st)) =
     (if recognized (get c ''Class'') then unhandled st
      else insert (unhandled_name c) (unhandled st))"
  by (simp add: component_body_def recognized_def Let_def split_beta
        pt_unhandled pl_unhandled sgb_unhandled)

lemma body_fst_state:
  "fst (component_body pf os l c dir data st) = fst (component_body pf os l c dir data st')"
proof -
  have a: "fst (parse_transform pf c st) = fst (parse_transform pf c st')" by (rule pt_fst)
  have b: "fst (parse_light pf c st) = fst (parse_light pf c st')" by (rule pl_fst)
  have g: "\<And>n. fst (get_unreal_asset_path os n dir st) = fst (get_unreal_asset_path os n dir st')"
    by (rule guap_fst)
  show ?thesis unfolding body_fst sgb_fst a b g ..
qed

lemma sgb_map:
  "map_of (fst (scene_graph_body os c dir (d, st))) =
     map_of d ++ map_of (fst (scene_graph_body os c dir ([], st)))"
  by (simp add: sgb_fst map_of_setitem fun_eq_iff map_add_def split: option.splits)

lemma sgb_distinct:
  "distinct (map fst d) \<Longrightarrow> distinct (map fst (fst (scene_graph_body os c dir (d, st))))"
  by (simp add: sgb_fst distinct_setitem split: option.splits)

lemma sgb_keys:
  "fst ` set d \<subseteq> fst ` set (fst (scene_graph_body os c dir (d, st)))"
  by (auto simp: sgb_fst keys_setitem split: option.splits)

lemma setitem_add: "map_of (setitem k v d) = map_of d ++ [k \<mapsto> v]"
  by (simp add: map_of_setitem)

lemma triple_map:
  "map_of (setitem k3 v3 (setitem k2 v2 (setitem k1 v1 d))) =
     map_of d ++ map_of (setitem k3 v3 (setitem k2 v2 (setitem k1 v1 [])))"
  by (simp only: setitem_add map_add_assoc map_of.simps map_add_empty empty_map_add)

lemma update_dict_map_add:
  "map_of (update_dict d other) = map_of d ++ map_of (update_dict [] other)"
  by (simp add: map_of_update_dict)

lemma body_transform:
  "get c ''Class'' = Some ''NiTransformationComponent'' \<Longrightarrow>
   fst (component_body pf os l c dir data st) =
     update_dict (setitem ''name'' (opt_str (get c ''Name''))
                 (setitem ''class'' (opt_str (get c ''Class''))
                    (setitem ''link_id'' (PStr l) data))) (fst (parse_transform pf c st))"
  by (simp add: body_fst)

lemma body_scene:
  "get c ''Class'' = Some ''NiSceneGraphComponent'' \<Longrightarrow>
   fst (component_body pf os l c dir data st) =
     fst (scene_graph_body os c dir (setitem ''name'' (opt_str (get c ''Name''))
                 (setitem ''class'' (opt_str (get c ''Class''))
                    (setitem ''link_id'' (PStr l) data)), st))"
  by (simp add: body_fst)

lemma body_light:
  "get c ''Class'' = Some ''NiLightComponent'' \<Longrightarrow>
   fst (component_body pf os l c dir data st) =
     update_dict (setitem ''name'' (opt_str (get c ''Name''))
                 (setitem ''class'' (opt_str (get c ''Class''))
                    (setitem ''link_id'' (PStr l) data))) (fst (parse_light pf c st))"
  by (simp add: body_fst)

lemma body_other:
  "get c ''Class'' \<noteq> Some ''NiTransformationComponent'' \<Longrightarrow>
   get c ''Class'' \<noteq> Some ''NiSceneGraphComponent'' \<Longrightarrow>
   get c ''Class'' \<noteq> Some ''NiLightComponent'' \<Longrightarrow>
   fst (component_body pf os l c dir data st) =
     setitem ''name'' (opt_str (get c ''Name''))
                 (setitem ''class'' (opt_str (get c ''Class''))
                    (setitem ''link_id'' (PStr l) data))"
  by (simp add: body_fst)

lemma body_map:
  "map_of (fst (component_body pf os l c dir data st)) =
     map_of data ++ map_of (fst (component_body pf os l c dir [] st))"
proof -
  let ?d3 = "\<lambda>d. setitem ''name'' (opt_str (get c ''Name''))
                 (setitem ''class'' (opt_str (get c ''Class''))
                    (setitem ''link_id'' (PStr l) d))"
  have t: "map_of (?d3 data) = map_of data ++ map_of (?d3 [])" by (rule triple_map)
  have u: "\<And>X. map_of (update_dict (?d3 data) X) = map_of data ++ map_of (update_dict (?d3 []) X)"
    by (simp only: map_of_update_dict t map_add_assoc)
  have s: "map_of (fst (scene_graph_body os c dir (?d3 data, st))) =
           map_of data ++ map_of (fst (scene_graph_body os c dir (?d3 [], st)))"
  proof -
    have s1: "map_of (fst (scene_graph_body os c dir (?d3 data, st))) =
              map_of (?d3 data) ++ map_of (fst (scene_graph_body os c dir ([], st)))"
      by (rule sgb_map)
    have s2: "map_of (fst (scene_graph_body os c dir (?d3 [], st))) =
              map_of (?d3 []) ++ map_of (fst (scene_graph_body os c dir ([], st)))"
      by (rule sgb_map)
    show ?thesis by (simp only: s1 s2 t map_add_assoc)
  qed
  consider (T) "get c ''Class'' = Some ''NiTransformationComponent''"
    | (S) "get c ''Class'' = Some ''NiSceneGraphComponent''"
    | (L) "get c ''Class'' = Some ''NiLightComponent''"
    | (O) "get c ''Class'' \<noteq> Some ''NiTransformationComponent''"
          "get c ''Class'' \<noteq> Some ''NiSceneGraphComponent''"
          "get c ''Class'' \<noteq> Some ''NiLightComponent''"
    by blast
  then show ?thesis
  proof cases
    case T show ?thesis unfolding body_transform[OF T] by (rule u)
  next
    case S show ?thesis unfolding body_scene[OF S] by (rule s)
  next
    case L show ?thesis unfolding body_light[OF L] by (rule u)
  next
    case O show ?thesis unfolding body_other[OF O] by (rule t)
  qed
qed

lemma body_distinct:
  "distinct (map fst data) \<Longrightarrow> distinct (map fst (fst (component_body pf os l c dir data st)))"
  unfolding body_fst Let_def
  by (simp add: distinct_update_dict distinct_setitem sgb_distinct)

lemma body_keys_mono:
  "fst ` set (setitem ''name'' (opt_str (get c ''Name''))
                 (setitem ''class'' (opt_str (get c ''Class''))
                    (setitem ''link_id'' (PStr l) data)))
     \<subseteq> fst ` set (fst (component_body pf os l c dir data st))"
proof -
  consider (T) "get c ''Class'' = Some ''NiTransformationComponent''"
    | (S) "get c ''Class'' = Some ''NiSceneGraphComponent''"
    | (L) "get c ''Class'' = Some ''NiLightComponent''"
    | (O) "get c ''Class'' \<noteq> Some ''NiTransformationComponent''"
          "get c ''Class'' \<noteq> Some ''NiSceneGraphComponent''"
          "get c ''Class'' \<noteq> Some ''NiLightComponent''"
    by blast
  then show ?thesis
  proof cases
    case T show ?thesis unfolding body_transform[OF T] keys_update_dict by (rule Un_upper1)
  next
    case S show ?thesis unfolding body_scene[OF S] by (rule sgb_keys)
  next
    case L show ?thesis unfolding body_light[OF L] keys_update_dict by (rule Un_upper1)
  next
    case O show ?thesis unfolding body_other[OF O] by (rule subset_refl)
  qed
qed

lemma body_has_triple:
  assumes "k = ''link_id'' \<or> k = ''class'' \<or> k = ''name''"
  shows "k \<in> fst ` set (fst (component_body pf os l c dir data st))"
proof -
  have "k \<in> insert ''name'' (insert ''class'' (insert ''link_id'' (fst ` set data)))"
    using assms by blast
  then have "k \<in> fst ` set (setitem ''name'' (opt_str (get c ''Name''))
                 (setitem ''class'' (opt_str (get c ''Class''))
                    (setitem ''link_id'' (PStr l) data)))"
    by (simp only: keys_setitem)
  then show ?thesis using body_keys_mono[of c l data pf os dir st] by blast
qed

section \<open>Component resolution, step by step\<close>

lemma gcd_unresolved:
  assumes "get ref ''RefLinkID'' = None \<or> get ref ''RefLinkID'' = Some []
           \<or> (\<exists>l. get ref ''RefLinkID'' = Some l \<and> cm l = None)"
  shows "get_component_data pf os (Suc n) ref cm tm dir st = (Inr None, st)"
  using assms by (auto split: option.splits)

lemma gcd_nomaster:
  assumes "get ref ''RefLinkID'' = Some l" "l \<noteq> []" "cm l = Some c"
    and "get c ''MasterLinkID'' = None \<or> get c ''MasterLinkID'' = Some []
         \<or> (\<exists>m. get c ''MasterLinkID'' = Some m \<and> cm m = None)"
  shows "get_component_data pf os (Suc n) ref cm tm dir st =
           (Inr (Some (fst (component_body pf os l c dir [] st))),
            snd (component_body pf os l c dir [] st))"
  using assms by (auto simp: split_beta split: option.splits)

lemma gcd_master:
  assumes "get ref ''RefLinkID'' = Some l" "l \<noteq> []" "cm l = Some c"
    and "get c ''MasterLinkID'' = Some m" "m \<noteq> []" "cm m \<noteq> None"
    and "get_component_data pf os n (master_ref m) cm tm dir st = (r1, st1)"
  shows "get_component_data pf os (Suc n) ref cm tm dir st =
           (case r1 of
              Inl e \<Rightarrow> (Inl e, st1)
            | Inr None \<Rightarrow> (Inl TypeError, st1)
            | Inr (Some md) \<Rightarrow>
                (Inr (Some (fst (component_body pf os l c dir (update_dict [] md) st1))),
                 snd (component_body pf os l c dir (update_dict [] md) st1)))"
  using assms by (auto simp: split_beta split: option.splits sum.splits)

declare get_component_data.simps(2) [simp del]

lemma gcd_induct [consumes 1, case_names limit unresolved nomaster master]:
  assumes res: "get_component_data pf os n ref cm tm dir st = (r, st')"
    and limit: "\<And>ref st. P 0 ref st (Inl RecursionError) st"
    and unresolved: "\<And>n ref st.
          get ref ''RefLinkID'' = None \<or> get ref ''RefLinkID'' = Some []
            \<or> (\<exists>l. get ref ''RefLinkID'' = Some l \<and> cm l = None)
          \<Longrightarrow> P (Suc n) ref st (Inr None) st"
    and nomaster: "\<And>n ref st l c.
          get ref ''RefLinkID'' = Some l \<Longrightarrow> l \<noteq> [] \<Longrightarrow> cm l = Some c \<Longrightarrow>
          get c ''MasterLinkID'' = None \<or> get c ''MasterLinkID'' = Some []
            \<or> (\<exists>m. get c ''MasterLinkID'' = Some m \<and> cm m = None)
          \<Longrightarrow> P (Suc n) ref st (Inr (Some (fst (component_body pf os l c dir [] st))))
                (snd (component_body pf os l c dir [] st))"
    and master: "\<And>n ref st l c m r1 st1.
          get ref ''RefLinkID'' = Some l \<Longrightarrow> l \<noteq> [] \<Longrightarrow> cm l = Some c \<Longrightarrow>
          get c ''MasterLinkID'' = Some m \<Longrightarrow> m \<noteq> [] \<Longrightarrow> cm m \<noteq> None \<Longrightarrow>
          get_component_data pf os n (master_ref m) cm tm dir st = (r1, st1) \<Longrightarrow>
          P n (master_ref m) st r1 st1
          \<Longrightarrow> P (Suc n) ref st
                (fst (case r1 of
                   Inl e \<Rightarrow> (Inl e, st1)
                 | Inr None \<Rightarrow> (Inl TypeError, st1)
                 | Inr (Some md) \<Rightarrow>
                     (Inr (Some (fst (component_body pf os l c dir (update_dict [] md) st1))),
                      snd (component_body pf os l c dir (update_dict [] md) st1))))
                (snd (case r1 of
                   Inl e \<Rightarrow> (Inl e, st1)
                 | Inr None \<Rightarrow> (Inl TypeError, st1)
                 | Inr (Some md) \<Rightarrow>
                     (Inr (Some (fst (component_body pf os l c dir (update_dict [] md) st1))),
                      snd (component_body pf os l c dir (update_dict [] md) st1))))"
  shows "P n ref st r st'"
proof -
  have "P n ref st (fst (get_component_data pf os n ref cm tm dir st))
          (snd (get_component_data pf os n ref cm tm dir st))"
  proof (induction n arbitrary: ref st)
    case 0
    show ?case using limit by simp
  next
    case (Suc n)
    show ?case
    proof (cases "get ref ''RefLinkID'' = None \<or> get ref ''RefLinkID'' = Some []
            \<or> (\<exists>l. get ref ''RefLinkID'' = Some l \<and> cm l = None)")
      case True
      show ?thesis using unresolved[OF True] by (simp add: gcd_unresolved[OF True])
    next
      case False
      then obtain l c where l: "get ref ''RefLinkID'' = Some l" "l \<noteq> []" "cm l = Some c"
        by (cases "get ref ''RefLinkID''") auto
      show ?thesis
      proof (cases "get c ''MasterLinkID'' = None \<or> get c ''MasterLinkID'' = Some []
            \<or> (\<exists>m. get c ''MasterLinkID'' = Some m \<and> cm m = None)")
        case True
        show ?thesis using nomaster[OF l True] by (simp add: gcd_nomaster[OF l True])
      next
        case False
        then obtain m where m: "get c ''MasterLinkID'' = Some m" "m \<noteq> []" "cm m \<noteq> None"
          by (cases "get c ''MasterLinkID''") auto
        obtain r1 st1 where
          g: "get_component_data pf os n (master_ref m) cm tm dir st = (r1, st1)"
          by force
        have p: "P n (master_ref m) st r1 st1" using Suc[of "master_ref m" st] g by simp
        show ?thesis using master[OF l m g p] by (simp add: gcd_master[OF l m g])
      qed
    qed
  qed
  then show ?thesis using res by simp
qed

section \<open>Invariants of component resolution\<close>

lemma get_master_ref [simp]: "get (master_ref m) ''RefLinkID'' = Some m"
  by (simp add: get_def)

lemma gcd_invariant:
  assumes "get_component_data pf os n ref cm tm dir st = (r, st')"
  shows "(\<forall>e. r = Inl e \<longrightarrow> e = RecursionError \<and> st' = st)
       \<and> (r = Inr None \<longleftrightarrow>
            0 < n \<and> (get ref ''RefLinkID'' = None \<or> get ref ''RefLinkID'' = Some []
              \<or> (\<exists>l. get ref ''RefLinkID'' = Some l \<and> cm l = None)))
       \<and> (\<forall>d. r = Inr (Some d) \<longrightarrow> distinct (map fst d))
       \<and> unhandled st \<subseteq> unhandled st'
       \<and> unhandled st' \<subseteq> unhandled st \<union>
            {unhandled_name c | c. c \<in> ran cm \<and> \<not> recognized (get c ''Class'')}"
  using assms
proof (induction rule: gcd_induct)
  case (limit ref st)
  then show ?case by simp
next
  case (unresolved n ref st)
  then show ?case by simp
next
  case (nomaster n ref st l c)
  have "c \<in> ran cm" using nomaster(3) by (auto simp: ran_def)
  then show ?case using nomaster(1,2,3)
    by (auto simp: body_unhandled body_distinct)
next
  case (master n ref st l c m r1 st1)
  have nu: "\<not> (get (master_ref m) ''RefLinkID'' = None \<or> get (master_ref m) ''RefLinkID'' = Some []
              \<or> (\<exists>l. get (master_ref m) ''RefLinkID'' = Some l \<and> cm l = None))"
    using master(5,6) by simp
  have i2: "r1 \<noteq> Inr None" using master.IH nu by blast
  have cr: "c \<in> ran cm" using master(3) by (auto simp: ran_def)
  show ?case
  proof (cases r1)
    case (Inl e)
    then have "e = RecursionError" "st1 = st" using master.IH by blast+
    then show ?thesis using Inl master(1,2,3) by simp
  next
    case (Inr b)
    then obtain md where r1: "r1 = Inr (Some md)" using i2 by (cases b) auto
    have dm: "distinct (map fst md)" using master.IH r1 by simp
    have u1: "unhandled st \<subseteq> unhandled st1" using master.IH by simp
    have u2: "unhandled st1 \<subseteq> unhandled st \<union>
            {unhandled_name c | c. c \<in> ran cm \<and> \<not> recognized (get c ''Class'')}"
      using master.IH by simp
    show ?thesis using master(1,2,3) u1 u2 dm cr
      by (auto simp: r1 body_unhandled body_distinct update_dict_empty)
  qed
qed

section \<open>What a resolved component contains\<close>

lemma gcd_Some_cases [consumes 1, case_names nomaster master]:
  assumes res: "get_component_data pf os n ref cm tm dir st = (Inr (Some d), st')"
    and nomaster: "\<And>l c.
          get ref ''RefLinkID'' = Some l \<Longrightarrow> l \<noteq> [] \<Longrightarrow> cm l = Some c \<Longrightarrow>
          get c ''MasterLinkID'' = None \<or> get c ''MasterLinkID'' = Some []
            \<or> (\<exists>m. get c ''MasterLinkID'' = Some m \<and> cm m = None) \<Longrightarrow>
          d = fst (component_body pf os l c dir [] st) \<Longrightarrow>
          st' = snd (component_body pf os l c dir [] st) \<Longrightarrow> thesis"
    and master: "\<And>l c m md st1 k.
          get ref ''RefLinkID'' = Some l \<Longrightarrow> l \<noteq> [] \<Longrightarrow> cm l = Some c \<Longrightarrow>
          get c ''MasterLinkID'' = Some m \<Longrightarrow> m \<noteq> [] \<Longrightarrow> cm m \<noteq> None \<Longrightarrow>
          get_component_data pf os k (master_ref m) cm tm dir st = (Inr (Some md), st1) \<Longrightarrow>
          distinct (map fst md) \<Longrightarrow>
          d = fst (component_body pf os l c dir md st1) \<Longrightarrow>
          st' = snd (component_body pf os l c dir md st1) \<Longrightarrow> n = Suc k \<Longrightarrow> thesis"
  shows thesis
proof -
  obtain k where n: "n = Suc k" using res by (cases n) auto
  note res = res[unfolded n]
  have nu: "\<not> (get ref ''RefLinkID'' = None \<or> get ref ''RefLinkID'' = Some []
              \<or> (\<exists>l. get ref ''RefLinkID'' = Some l \<and> cm l = None))"
    using gcd_invariant[OF res] by simp
  then obtain l c where l: "get ref ''RefLinkID'' = Some l" "l \<noteq> []" "cm l = Some c"
    by (cases "get ref ''RefLinkID''") auto
  show thesis
  proof (cases "get c ''MasterLinkID'' = None \<or> get c ''MasterLinkID'' = Some []
            \<or> (\<exists>m. get c ''MasterLinkID'' = Some m \<and> cm m = None)")
    case True
    show thesis using nomaster[OF l True] gcd_nomaster[OF l True, of pf os k tm dir st] res by simp
  next
    case False
    then obtain m where m: "get c ''MasterLinkID'' = Some m" "m \<noteq> []" "cm m \<noteq> None"
      by (cases "get c ''MasterLinkID''") auto
    obtain r1 st1 where
      g: "get_component_data pf os k (master_ref m) cm tm dir st = (r1, st1)" by force
    have i: "r1 \<noteq> Inr None" using gcd_invariant[OF g] m by simp
    have "\<forall>e. r1 \<noteq> Inl e" using gcd_master[OF l m g] res by (auto split: sum.splits)
    then obtain md where r1: "r1 = Inr (Some md)"
      using i by (cases r1) auto
    have dm: "distinct (map fst md)" using gcd_invariant[OF g] r1 by simp
    have "get_component_data pf os (Suc k) ref cm tm dir st =
              (Inr (Some (fst (component_body pf os l c dir md st1))),
               snd (component_body pf os l c dir md st1))"
      using gcd_master[OF l m g] by (simp add: r1 update_dict_empty[OF dm])
    with res have "d = fst (component_body pf os l c dir md st1)"
      "st' = snd (component_body pf os l c dir md st1)" by simp_all
    then show thesis using master[OF l m g[unfolded r1] dm _ _ n] by blast
  qed
qed

lemma update_dict_other_key:
  "k \<notin> fst ` set other \<Longrightarrow> map_of (update_dict d other) k = map_of d k"
proof -
  assume "k \<notin> fst ` set other"
  then have "k \<notin> fst ` set (rev other)" by simp
  then have "map_of (rev other) k = None" by (simp add: map_of_eq_None_iff)
  then show ?thesis by (simp add: map_of_update_dict map_add_def)
qed

lemma sgb_other_key:
  "k \<noteq> ''unreal_path'' \<Longrightarrow> k \<noteq> ''nif_path_rel'' \<Longrightarrow>
     map_of (fst (scene_graph_body os c dir (d, st))) k = map_of d k"
  by (simp add: sgb_fst map_of_setitem split: option.splits)

lemma body_keeps:
  assumes "k \<noteq> ''translation''" "k \<noteq> ''rotation''" "k \<noteq> ''scale''"
    and "k \<noteq> ''unreal_path''" "k \<noteq> ''nif_path_rel''"
    and light: "get c ''Class'' = Some ''NiLightComponent'' \<Longrightarrow>
           \<forall>p \<in> set (findall c ''PROPERTY''). \<forall>n. get p ''Name'' = Some n \<longrightarrow> key_name n \<noteq> k"
  shows "map_of (fst (component_body pf os l c dir data st)) k =
         map_of (setitem ''name'' (opt_str (get c ''Name''))
                  (setitem ''class'' (opt_str (get c ''Class''))
                     (setitem ''link_id'' (PStr l) data))) k"
proof -
  consider (T) "get c ''Class'' = Some ''NiTransformationComponent''"
    | (S) "get c ''Class'' = Some ''NiSceneGraphComponent''"
    | (L) "get c ''Class'' = Some ''NiLightComponent''"
    | (O) "get c ''Class'' \<noteq> Some ''NiTransformationComponent''"
          "get c ''Class'' \<noteq> Some ''NiSceneGraphComponent''"
          "get c ''Class'' \<noteq> Some ''NiLightComponent''"
    by blast
  then show ?thesis
  proof cases
    case T
    have "k \<notin> fst ` set (fst (parse_transform pf c st))"
      using pt_keys[of k pf c st] assms(1-3) by blast
    then show ?thesis unfolding body_transform[OF T] by (rule update_dict_other_key)
  next
    case S
    show ?thesis unfolding body_scene[OF S] using assms(4,5) by (rule sgb_other_key)
  next
    case L
    have "k \<notin> fst ` set (fst (parse_light pf c st))"
    proof
      assume "k \<in> fst ` set (fst (parse_light pf c st))"
      then obtain p n where "p \<in> set (findall c ''PROPERTY'')" "get p ''Name'' = Some n"
        "k = key_name n" using pl_keys[of k pf c st] by blast
      then show False using light[OF L] by blast
    qed
    then show ?thesis unfolding body_light[OF L] by (rule update_dict_other_key)
  next
    case O
    show ?thesis unfolding body_other[OF O] ..
  qed
qed

lemma body_link_id:
  assumes "get c ''Class'' = Some ''NiLightComponent'' \<Longrightarrow>
           \<forall>p \<in> set (findall c ''PROPERTY''). \<forall>n. get p ''Name'' = Some n
              \<longrightarrow> key_name n \<noteq> ''link_id''"
  shows "map_of (fst (component_body pf os l c dir data st)) ''link_id'' = Some (PStr l)"
  using body_keeps[of "''link_id''" c pf os l dir data st] assms
  by (simp add: map_of_setitem)

lemma body_class:
  assumes "get c ''Class'' = Some ''NiLightComponent'' \<Longrightarrow>
           \<forall>p \<in> set (findall c ''PROPERTY''). \<forall>n. get p ''Name'' = Some n
              \<longrightarrow> key_name n \<noteq> ''class''"
  shows "map_of (fst (component_body pf os l c dir data st)) ''class''
         = Some (opt_str (get c ''Class''))"
  using body_keeps[of "''class''" c pf os l dir data st] assms
  by (simp add: map_of_setitem)

lemma body_name:
  assumes "get c ''Class'' = Some ''NiLightComponent'' \<Longrightarrow>
           \<forall>p \<in> set (findall c ''PROPERTY''). \<forall>n. get p ''Name'' = Some n
              \<longrightarrow> key_name n \<noteq> ''name''"
  shows "map_of (fst (component_body pf os l c dir data st)) ''name''
         = Some (opt_str (get c ''Name''))"
  using body_keeps[of "''name''" c pf os l dir data st] assms
  by (simp add: map_of_setitem)

section \<open>Claims about a resolved component\<close>

lemmas ex_eval = get_component_data.simps(2) get_def find_property_def findall_def truthy_def opt_str_def fmt_def
  component_body_def scene_graph_body_def unhandled_name_def
  parse_transform_def transform_translation_def transform_rotation_def transform_scale_def
  parse_light_def parse_light_prop_def key_name_def parse_floats_def
  update_dict_def strip_def isspace_def remove_char_def replace_char_def logging_def
  lower_def lower_char_def upper_letters_def lower_letters_def st0_def Let_def

text \<open>
  Claim C2. When the master link of the referenced component resolves and the master's
  resolution returns the data \<open>md\<close>, the component's resolution returns data that hold
  every attribute of \<open>md\<close> and, over them, every attribute that the component yields by
  itself (its base triple and the attributes of its class): the merge is by attribute.
  With \<^verbatim>\<open>B\<close> defining the translation \<^verbatim>\<open>1,2,3\<close> and \<^verbatim>\<open>A\<close>, whose master is \<^verbatim>\<open>B\<close>, defining
  only the scale \<^verbatim>\<open>0.5\<close>, the data of \<^verbatim>\<open>A\<close> hold both.
\<close>

theorem C2_master_merge:
  "(\<forall>(pf :: string \<Rightarrow> 'f option) os depth ref cm tm dir st l c m md st1.
      get ref ''RefLinkID'' = Some l \<and> l \<noteq> [] \<and> cm l = Some c \<and>
      get c ''MasterLinkID'' = Some m \<and> m \<noteq> [] \<and> cm m \<noteq> None \<and>
      get_component_data pf os depth (master_ref m) cm tm dir st = (Inr (Some md), st1)
      \<longrightarrow> (\<exists>d st'. get_component_data pf os (Suc depth) ref cm tm dir st = (Inr (Some d), st')
             \<and> map_of d = map_of md ++ map_of (fst (component_body pf os l c dir [] st1))))
   \<and> (\<forall>(pf :: string \<Rightarrow> 'f option) os depth x y z h.
        pf ''1'' = Some x \<and> pf ''2'' = Some y \<and> pf ''3'' = Some z \<and> pf ''0.5'' = Some h
        \<longrightarrow> get_component_data pf os (Suc (Suc depth)) (comp_ref ''1'') master_map Map.empty
                ''maps'' st0 =
              (Inr (Some [(''link_id'', PStr ''1''),
                          (''class'', PStr ''NiTransformationComponent''),
                          (''name'', PStr ''A''),
                          (''translation'', PFloats [x, y, z]),
                          (''scale'', PFloat h)]), st0))"
proof (intro conjI allI impI)
  fix pf :: "string \<Rightarrow> 'f option" and os depth ref cm tm dir st l c m md st1
  assume h: "get ref ''RefLinkID'' = Some l \<and> l \<noteq> [] \<and> cm l = Some c \<and>
      get c ''MasterLinkID'' = Some m \<and> m \<noteq> [] \<and> cm m \<noteq> None \<and>
      get_component_data pf os depth (master_ref m) cm tm dir st = (Inr (Some md), st1)"
  then have g: "get_component_data pf os depth (master_ref m) cm tm dir st
                  = (Inr (Some md), st1)"
    by blast
  have dm: "distinct (map fst md)" using gcd_invariant[OF g] by simp
  have "get_component_data pf os (Suc depth) ref cm tm dir st =
          (Inr (Some (fst (component_body pf os l c dir md st1))),
           snd (component_body pf os l c dir md st1))"
    using gcd_master[of ref l cm c m pf os depth tm dir st "Inr (Some md)" st1] h
    by (simp add: update_dict_empty[OF dm])
  moreover have "map_of (fst (component_body pf os l c dir md st1)) =
      map_of md ++ map_of (fst (component_body pf os l c dir [] st1))"
    by (rule body_map)
  ultimately show "\<exists>d st'. get_component_data pf os (Suc depth) ref cm tm dir st
                     = (Inr (Some d), st')
             \<and> map_of d = map_of md ++ map_of (fst (component_body pf os l c dir [] st1))"
    by blast
next
  fix pf :: "string \<Rightarrow> 'f option" and os depth x y z h
  assume "pf ''1'' = Some x \<and> pf ''2'' = Some y \<and> pf ''3'' = Some z \<and> pf ''0.5'' = Some h"
  then show "get_component_data pf os (Suc (Suc depth)) (comp_ref ''1'') master_map Map.empty
                ''maps'' st0 =
              (Inr (Some [(''link_id'', PStr ''1''),
                          (''class'', PStr ''NiTransformationComponent''),
                          (''name'', PStr ''A''),
                          (''translation'', PFloats [x, y, z]),
                          (''scale'', PFloat h)]), st0)"
    by (simp add: master_map_def comp_a_def comp_b_def ex_eval)
qed

text \<open>C2 at the two components \<^verbatim>\<open>A\<close> and \<^verbatim>\<open>B\<close>, with the stand-in for \<^verbatim>\<open>float\<close>.\<close>

theorem C2_witness:
  "get_component_data pf_ex Posix 2 (comp_ref ''1'') master_map Map.empty ''maps'' st0 =
     (Inr (Some [(''link_id'', PStr ''1''), (''class'', PStr ''NiTransformationComponent''),
          (''name'', PStr ''A''), (''translation'', PFloats [1, 2, 3]),
          (''scale'', PFloat (1 / 2))]), st0)
   \<and> (\<exists>d st'. get_component_data pf_ex Posix 2 (comp_ref ''1'') master_map Map.empty ''maps'' st0
                 = (Inr (Some d), st')
        \<and> map_of d ''translation'' = Some (PFloats [1, 2, 3])
        \<and> map_of d ''scale'' = Some (PFloat (1 / 2)))"
proof -
  have e: "get_component_data pf_ex Posix 2 (comp_ref ''1'') master_map Map.empty ''maps'' st0 =
     (Inr (Some [(''link_id'', PStr ''1''), (''class'', PStr ''NiTransformationComponent''),
          (''name'', PStr ''A''), (''translation'', PFloats [1, 2, 3]),
          (''scale'', PFloat (1 / 2))]), st0)"
    using C2_master_merge[THEN conjunct2, rule_format, of pf_ex 1 2 3 "1 / 2" Posix 0]
    by (simp add: pf_ex_def numeral_2_eq_2)
  have m: "get_component_data pf_ex Posix 1 (master_ref ''2'') master_map Map.empty ''maps'' st0
     = (Inr (Some [(''link_id'', PStr ''2''), (''class'', PStr ''NiTransformationComponent''),
          (''name'', PStr ''B''), (''translation'', PFloats [1, 2, 3])]), st0)"
    by (simp add: master_map_def comp_b_def ex_eval pf_ex_def)
  have "\<exists>d st'. get_component_data pf_ex Posix (Suc 1) (comp_ref ''1'') master_map Map.empty
                   ''maps'' st0 = (Inr (Some d), st')
          \<and> map_of d = map_of [(''link_id'', PStr ''2''),
                 (''class'', PStr ''NiTransformationComponent''),
                 (''name'', PStr ''B''), (''translation'', PFloats [1, 2, 3])]
              ++ map_of (fst (component_body pf_ex Posix ''1'' comp_a ''maps'' [] st0))"
    using C2_master_merge[THEN conjunct1, rule_format, of "comp_ref ''1''" "''1''" master_map
        comp_a "''2''" pf_ex Posix 1 Map.empty "''maps''" st0 _ st0] m
    by (simp add: master_map_def comp_a_def get_def)
  then show ?thesis using e by (auto simp: numeral_2_eq_2 comp_a_def ex_eval pf_ex_def)
qed

section \<open>Master chains and the recursion limit\<close>

lemma gcd_endless:
  assumes closed: "\<forall>x \<in> S. x \<noteq> [] \<and> (\<exists>c m. cm x = Some c \<and> get c ''MasterLinkID'' = Some m
                                          \<and> m \<in> S)"
    and ref: "get ref ''RefLinkID'' = Some l" "l \<in> S"
  shows "get_component_data pf os n ref cm tm dir st = (Inl RecursionError, st)"
  using ref
proof (induction n arbitrary: ref l)
  case 0
  show ?case by simp
next
  case (Suc n)
  from closed Suc.prems(2) obtain c m where
    l: "l \<noteq> []" "cm l = Some c" and m: "get c ''MasterLinkID'' = Some m" "m \<in> S"
    by blast
  from closed m(2) have m': "m \<noteq> []" "cm m \<noteq> None" by auto
  have "get_component_data pf os n (master_ref m) cm tm dir st = (Inl RecursionError, st)"
    using get_master_ref m(2) by (rule Suc.IH)
  then show ?case
    using gcd_master[OF Suc.prems(1) l m(1) m', of pf os n tm dir st "Inl RecursionError" st]
    by simp
qed

lemma gcd_ranked:
  assumes acyclic: "\<forall>l c m. cm l = Some c \<and> get c ''MasterLinkID'' = Some m \<and> m \<noteq> []
                      \<and> cm m \<noteq> None \<longrightarrow> rank m < (rank l :: nat)"
    and depth: "(case get ref ''RefLinkID'' of None \<Rightarrow> 0 | Some l \<Rightarrow> rank l) < n"
  shows "\<exists>r. fst (get_component_data pf os n ref cm tm dir st) = Inr r"
  using depth
proof (induction n arbitrary: ref)
  case 0
  then show ?case by simp
next
  case (Suc n)
  show ?case
  proof (cases "get ref ''RefLinkID'' = None \<or> get ref ''RefLinkID'' = Some []
            \<or> (\<exists>l. get ref ''RefLinkID'' = Some l \<and> cm l = None)")
    case True
    show ?thesis by (simp add: gcd_unresolved[OF True])
  next
    case False
    then obtain l c where l: "get ref ''RefLinkID'' = Some l" "l \<noteq> []" "cm l = Some c"
      by (cases "get ref ''RefLinkID''") auto
    show ?thesis
    proof (cases "get c ''MasterLinkID'' = None \<or> get c ''MasterLinkID'' = Some []
            \<or> (\<exists>m. get c ''MasterLinkID'' = Some m \<and> cm m = None)")
      case True
      show ?thesis by (simp add: gcd_nomaster[OF l True])
    next
      case False
      then obtain m where m: "get c ''MasterLinkID'' = Some m" "m \<noteq> []" "cm m \<noteq> None"
        by (cases "get c ''MasterLinkID''") auto
      have "rank m < rank l" using acyclic l(3) m by blast
      then have "(case get (master_ref m) ''RefLinkID'' of None \<Rightarrow> 0 | Some l \<Rightarrow> rank l) < n"
        using Suc.prems l(1) by simp
      then obtain r1 where
        r1: "fst (get_component_data pf os n (master_ref m) cm tm dir st) = Inr r1"
        using Suc.IH by blast
      obtain st1 where
        g: "get_component_data pf os n (master_ref m) cm tm dir st = (Inr r1, st1)"
        using r1 by (cases "get_component_data pf os n (master_ref m) cm tm dir st") simp
      have "r1 \<noteq> None" using gcd_invariant[OF g] m by simp
      then obtain md where "r1 = Some md" by (cases r1) auto
      then show ?thesis using gcd_master[OF l m g] by simp
    qed
  qed
qed

lemma gcd_long_chain:
  assumes links: "\<forall>x \<in> set ls. x \<noteq> [] \<and> cm x \<noteq> None"
    and steps: "\<forall>i. Suc i < length ls
                  \<longrightarrow> get (the (cm (ls ! i))) ''MasterLinkID'' = Some (ls ! Suc i)"
    and ref: "ls \<noteq> []" "get ref ''RefLinkID'' = Some (hd ls)"
    and long: "n < length ls"
  shows "get_component_data pf os n ref cm tm dir st = (Inl RecursionError, st)"
  using assms
proof (induction n arbitrary: ref ls)
  case 0
  show ?case by simp
next
  case (Suc n)
  obtain l ls' where ls: "ls = l # ls'" using Suc.prems(3) by (cases ls) auto
  have l: "get ref ''RefLinkID'' = Some l" "l \<noteq> []" using Suc.prems(1,4) ls by auto
  obtain c where c: "cm l = Some c" using Suc.prems(1) ls by auto
  have ne: "ls' \<noteq> []" using Suc.prems(5) ls by auto
  then obtain m ls'' where ls': "ls' = m # ls''" by (cases ls') auto
  have m: "get c ''MasterLinkID'' = Some m"
    using Suc.prems(2)[rule_format, of 0] ls ls' c by simp
  have m': "m \<noteq> []" "cm m \<noteq> None" using Suc.prems(1) ls ls' by auto
  have "get_component_data pf os n (master_ref m) cm tm dir st = (Inl RecursionError, st)"
  proof (rule Suc.IH[where ls = ls'])
    show "\<forall>x \<in> set ls'. x \<noteq> [] \<and> cm x \<noteq> None" using Suc.prems(1) ls by simp
    show "\<forall>i. Suc i < length ls'
            \<longrightarrow> get (the (cm (ls' ! i))) ''MasterLinkID'' = Some (ls' ! Suc i)"
    proof (intro allI impI)
      fix i assume "Suc i < length ls'"
      then have "Suc (Suc i) < length ls" using ls by simp
      then have "get (the (cm (ls ! Suc i))) ''MasterLinkID'' = Some (ls ! Suc (Suc i))"
        using Suc.prems(2) by blast
      then show "get (the (cm (ls' ! i))) ''MasterLinkID'' = Some (ls' ! Suc i)"
        using ls by simp
    qed
    show "ls' \<noteq> []" by (rule ne)
    show "get (master_ref m) ''RefLinkID'' = Some (hd ls')" using ls' by simp
    show "n < length ls'" using Suc.prems(5) ls by simp
  qed
  then show ?case
    using gcd_master[OF l c m m', of pf os n tm dir st "Inl RecursionError" st] by simp
qed





section \<open>Path resolution on the two hosts\<close>

text \<open>
  Claim C4 holds of the code on Windows only. The claim's example, the relative path
  \<^verbatim>\<open>..\..\00_Object\model.nif\<close> of a document in \<^verbatim>\<open>Client/Data/3_World/99_Tutorial\<close>,
  resolves to \<^verbatim>\<open>/Game/00_Object/model\<close> where \<^verbatim>\<open>os.path\<close> is \<^verbatim>\<open>ntpath\<close>. Where it is
  \<^verbatim>\<open>posixpath\<close> the backslash is no separator when the path is joined and normalized, the
  two \<^verbatim>\<open>..\<close> segments are not resolved, and the result keeps them.
\<close>

theorem C4_example_on_each_host:
  "get_unreal_asset_path Nt ex_nif ''Client/Data/3_World/99_Tutorial'' st0
     = (Some ''/Game/00_Object/model'', st0)
   \<and> get_unreal_asset_path Posix ex_nif ''Client/Data/3_World/99_Tutorial'' st0
     = (Some ''/Game/3_World/99_Tutorial/../../00_Object/model'', st0)"
  by (simp add: ex_nif_def path_eval posixpath_normpath_loop.simps split_on.simps)

text \<open>
  The last step, \<^verbatim>\<open>os.path.join('/Game', clean_path)\<close>, gives up \<^verbatim>\<open>/Game\<close> when the
  suffix begins with a separator. On a POSIX host the relative path \<^verbatim>\<open>Data\\x.nif\<close>, with
  a doubled backslash, has an empty segment after \<^verbatim>\<open>Data\<close> and resolves to \<^verbatim>\<open>/x\<close>.
\<close>

lemma game_root_dropped:
  "get_unreal_asset_path Posix double_nif ''maps'' st0 = (Some ''/x'', st0)"
  by (simp add: double_nif_def path_eval)

section \<open>A resolved component, given what its master chain returned\<close>

lemma gcd_resolved:
  assumes ref: "get ref ''RefLinkID'' = Some l" "l \<noteq> []" "cm l = Some c"
    and master: "if truthy (get c ''MasterLinkID'') \<and> cm (the (get c ''MasterLinkID'')) \<noteq> None
                 then get_component_data pf os n (master_ref (the (get c ''MasterLinkID'')))
                        cm tm dir st = (Inr (Some md), st1)
                 else md = [] \<and> st1 = st"
  shows "get_component_data pf os (Suc n) ref cm tm dir st =
           (Inr (Some (fst (component_body pf os l c dir md st1))),
            snd (component_body pf os l c dir md st1))"
proof (cases "truthy (get c ''MasterLinkID'') \<and> cm (the (get c ''MasterLinkID'')) \<noteq> None")
  case True
  then obtain m where m: "get c ''MasterLinkID'' = Some m" "m \<noteq> []" "cm m \<noteq> None"
    by (cases "get c ''MasterLinkID''") (auto simp: truthy_def)
  have g: "get_component_data pf os n (master_ref m) cm tm dir st = (Inr (Some md), st1)"
    using master True m(1) by simp
  have dm: "distinct (map fst md)" using gcd_invariant[OF g] by simp
  show ?thesis using gcd_master[OF ref m g] by (simp add: update_dict_empty[OF dm])
next
  case False
  then have nm: "get c ''MasterLinkID'' = None \<or> get c ''MasterLinkID'' = Some []
         \<or> (\<exists>m. get c ''MasterLinkID'' = Some m \<and> cm m = None)"
    by (cases "get c ''MasterLinkID''") (auto simp: truthy_def)
  have "md = []" "st1 = st" using master False by simp_all
  then show ?thesis using gcd_nomaster[OF ref nm] by simp
qed

section \<open>Failed path resolution\<close>

lemma guap_failure:
  assumes "nif = [] \<or> ''Data'' \<notin> set (split_on (CHR ''/'')
                     (replace_char bsl (CHR ''/'') (normpath os (path_join os dir nif))))"
  shows "get_unreal_asset_path os nif dir st =
           (None, logging (if nif = [] then Invalid_nif_path_rel nif
                           else No_Data_root (normpath os (path_join os dir nif))) st)"
  using assms
  by (auto simp: get_unreal_asset_path_def Let_def index_of_None_iff[symmetric]
           split: option.splits)

lemma body_scene_snd:
  "get c ''Class'' = Some ''NiSceneGraphComponent'' \<Longrightarrow>
   snd (component_body pf os l c dir data st) =
     snd (scene_graph_body os c dir (setitem ''name'' (opt_str (get c ''Name''))
                 (setitem ''class'' (opt_str (get c ''Class''))
                    (setitem ''link_id'' (PStr l) data)), st))"
  by (simp add: component_body_def)

lemma sgb_failure:
  assumes "(if find_property c ''Scene Root'' = None then find_property c ''NIF File Path''
            else find_property c ''Scene Root'') = Some prop"
    and "truthy (etext prop)"
    and "strip (the (etext prop)) = [] \<or> ''Data'' \<notin> set (split_on (CHR ''/'')
            (replace_char bsl (CHR ''/'')
               (normpath os (path_join os dir (strip (the (etext prop)))))))"
  shows "scene_graph_body os c dir (d, st) =
           (setitem ''nif_path_rel'' (PStr (strip (the (etext prop))))
              (setitem ''unreal_path'' PNone d),
            logging (if strip (the (etext prop)) = []
                     then Invalid_nif_path_rel (strip (the (etext prop)))
                     else No_Data_root
                            (normpath os (path_join os dir (strip (the (etext prop)))))) st)"
  using assms(1,2) guap_failure[OF assms(3), of st]
  by (simp add: scene_graph_body_def Let_def opt_str_def)

text \<open>
  Claim C5 fails as stated: when the path of a scene-graph component cannot be resolved,
  the key \<^verbatim>\<open>unreal_path\<close> is not left out. It is there, with the value \<^verbatim>\<open>None\<close>, on either
  host.
\<close>

theorem C5_counterexample:
  "fst (get_component_data pf_ex Nt 1 (comp_ref ''5'') scene_map Map.empty ''maps'' st0) =
     Inr (Some [(''link_id'', PStr ''5''), (''class'', PStr ''NiSceneGraphComponent''),
                (''name'', PStr ''Mesh''), (''unreal_path'', PNone),
                (''nif_path_rel'', PStr ''model.nif'')])
   \<and> fst (get_component_data pf_ex Posix 1 (comp_ref ''5'') scene_map Map.empty ''maps'' st0) =
     Inr (Some [(''link_id'', PStr ''5''), (''class'', PStr ''NiSceneGraphComponent''),
                (''name'', PStr ''Mesh''), (''unreal_path'', PNone),
                (''nif_path_rel'', PStr ''model.nif'')])"
  by (simp add: scene_map_def scene_comp_def ex_eval path_eval)

text \<open>
  Claim C5, as amended. Let a referenced scene-graph component have a path property with
  text whose stripped form is empty or whose joined, normalized path has no segment
  \<^verbatim>\<open>Data\<close>, and let the resolution of its master, if a master link resolves, have returned
  the data \<open>md\<close> and the state \<open>stm\<close> (without a master these are the empty dictionary and
  the state of the call). Then the resolution returns the component: its data are \<open>md\<close>
  with the base triple written over it, then \<^verbatim>\<open>unreal_path\<close> with the value \<^verbatim>\<open>None\<close>, then
  \<^verbatim>\<open>nif_path_rel\<close> with the stripped text; and the state is \<open>stm\<close> with one more entry at
  the end of the log, the warning of the path helper.
\<close>

theorem C5_failed_path:
  assumes ref: "get ref ''RefLinkID'' = Some l" "l \<noteq> []" "cm l = Some c"
    and cls: "get c ''Class'' = Some ''NiSceneGraphComponent''"
    and found: "(if find_property c ''Scene Root'' = None then find_property c ''NIF File Path''
                else find_property c ''Scene Root'') = Some prop"
    and nonempty: "etext prop = Some t" "t \<noteq> []"
    and fail: "strip t = [] \<or> ''Data'' \<notin> set (split_on (CHR ''/'')
            (replace_char bsl (CHR ''/'') (normpath os (path_join os dir (strip t)))))"
    and master: "if truthy (get c ''MasterLinkID'') \<and> cm (the (get c ''MasterLinkID'')) \<noteq> None
                 then get_component_data pf os depth (master_ref (the (get c ''MasterLinkID'')))
                        cm tm dir st = (Inr (Some md), stm)
                 else md = [] \<and> stm = st"
  shows "\<exists>d st'. get_component_data pf os (Suc depth) ref cm tm dir st = (Inr (Some d), st')
       \<and> d = setitem ''nif_path_rel'' (PStr (strip t))
               (setitem ''unreal_path'' PNone
                 (setitem ''name'' (case get c ''Name'' of None \<Rightarrow> PNone | Some s \<Rightarrow> PStr s)
                   (setitem ''class'' (PStr ''NiSceneGraphComponent'')
                     (setitem ''link_id'' (PStr l) md))))
       \<and> map_of d ''unreal_path'' = Some PNone
       \<and> map_of d ''nif_path_rel'' = Some (PStr (strip t))
       \<and> logged st' = logged stm @
            [if strip t = [] then Invalid_nif_path_rel []
             else No_Data_root (normpath os (path_join os dir (strip t)))]
       \<and> unhandled st' = unhandled stm"
proof -
  have tr: "truthy (etext prop)" and te: "the (etext prop) = t"
    using nonempty by (simp_all add: truthy_def)
  have fail': "strip (the (etext prop)) = [] \<or> ''Data'' \<notin> set (split_on (CHR ''/'')
            (replace_char bsl (CHR ''/'')
               (normpath os (path_join os dir (strip (the (etext prop)))))))"
    using fail te by simp
  have b2: "snd (component_body pf os l c dir md stm) =
            logging (if strip t = [] then Invalid_nif_path_rel (strip t)
                     else No_Data_root (normpath os (path_join os dir (strip t)))) stm"
    by (simp add: body_scene_snd[OF cls] sgb_failure[OF found tr fail', unfolded te])
  have b0: "fst (component_body pf os l c dir md stm) =
          setitem ''nif_path_rel'' (PStr (strip t))
              (setitem ''unreal_path'' PNone
                (setitem ''name'' (opt_str (get c ''Name''))
                 (setitem ''class'' (opt_str (get c ''Class''))
                    (setitem ''link_id'' (PStr l) md))))"
    by (simp add: body_scene[OF cls] sgb_failure[OF found tr fail', unfolded te])
  have r: "get_component_data pf os (Suc depth) ref cm tm dir st =
           (Inr (Some (fst (component_body pf os l c dir md stm))),
            snd (component_body pf os l c dir md stm))"
    using ref master by (rule gcd_resolved)
  show ?thesis
    unfolding r b0 b2
    by (simp add: map_of_setitem cls opt_str_def logging_def)
qed

text \<open>C5 at the scene-graph component whose path lies outside \<^verbatim>\<open>Data\<close>, on a POSIX host.\<close>

theorem C5_witness:
  "\<exists>d st'. get_component_data pf_ex Posix 1 (comp_ref ''5'') scene_map Map.empty ''maps'' st0
             = (Inr (Some d), st')
     \<and> map_of d ''unreal_path'' = Some PNone
     \<and> map_of d ''nif_path_rel'' = Some (PStr ''model.nif'')
     \<and> logged st' = [No_Data_root ''maps/model.nif'']
     \<and> unhandled st' = {}"
proof -
  have found: "(if find_property scene_comp ''Scene Root'' = None
               then find_property scene_comp ''NIF File Path''
               else find_property scene_comp ''Scene Root'') =
              Some (Element ''PROPERTY'' [(''Name'', ''NIF File Path'')] (Some ''model.nif'') [])"
    by (simp add: scene_comp_def find_property_def get_def)
  have s: "strip ''model.nif'' = ''model.nif''" by (simp add: strip_def isspace_def)
  have n: "normpath Posix (path_join Posix ''maps'' ''model.nif'') = ''maps/model.nif''"
    by (simp add: path_eval)
  have f: "strip ''model.nif'' = [] \<or> ''Data'' \<notin> set (split_on (CHR ''/'')
            (replace_char bsl (CHR ''/'')
               (normpath Posix (path_join Posix ''maps'' (strip ''model.nif'')))))"
    unfolding s n by (simp add: replace_char_def)
  have m: "if truthy (get scene_comp ''MasterLinkID'')
              \<and> scene_map (the (get scene_comp ''MasterLinkID'')) \<noteq> None
           then get_component_data pf_ex Posix 0 (master_ref (the (get scene_comp ''MasterLinkID'')))
                  scene_map Map.empty ''maps'' st0 = (Inr (Some []), st0)
           else [] = ([] :: rat pydict) \<and> st0 = st0"
    by (simp add: scene_comp_def get_def truthy_def)
  have h: "get (comp_ref ''5'') ''RefLinkID'' = Some ''5''" "''5'' \<noteq> []"
    "scene_map ''5'' = Some scene_comp"
    "get scene_comp ''Class'' = Some ''NiSceneGraphComponent''"
    by (simp_all add: scene_map_def scene_comp_def get_def)
  have e: "etext (Element ''PROPERTY'' [(''Name'', ''NIF File Path'')] (Some ''model.nif'') [])
             = Some ''model.nif''" "''model.nif'' \<noteq> []"
    by simp_all
  show ?thesis
    using C5_failed_path[OF h found e f m] unfolding s n
    by (auto simp: st0_def get_def scene_comp_def)
qed

section \<open>Unhandled classes\<close>

lemma body_unrecognized:
  assumes "\<not> recognized (get c ''Class'')"
  shows "component_body pf os l c dir data st =
           (setitem ''name'' (opt_str (get c ''Name''))
              (setitem ''class'' (opt_str (get c ''Class''))
                 (setitem ''link_id'' (PStr l) data)),
            st\<lparr>unhandled := insert (unhandled_name c) (unhandled st)\<rparr>)"
  using assms by (simp add: component_body_def recognized_def)

lemma recognized_list:
  "recognized k \<longleftrightarrow>
     k \<in> set [Some ''NiTransformationComponent'', Some ''NiSceneGraphComponent'',
              Some ''NiLightComponent'', Some ''NiCameraComponent'',
              Some ''NiGeneralComponent'', Some ''NiCollisionComponent'']"
  by (simp add: recognized_def)

text \<open>
  Claim C7. Let the resolution of the referenced component's master, if a master link
  resolves, have returned the data \<open>md\<close> and the state \<open>stm\<close> (without a master the empty
  dictionary and the state of the call). The resolution returns. When the class of the
  component is one of the six recognized ones (\<^verbatim>\<open>NiCollisionComponent\<close> among them), the
  set of unhandled components is as in \<open>stm\<close>: the component adds nothing. When it is any
  other class (or none), the set is that of \<open>stm\<close> with the text of the component's own
  class, two colons and the text of its own name put in; the set holds it once, so when
  it was there already the set is unchanged; nothing is logged, and the data are \<open>md\<close>
  with only the base triple written over it. Whatever the whole resolution adds to the
  set is such a text of a component of the map whose class is not recognized.
\<close>

theorem C7_unhandled:
  assumes ref: "get ref ''RefLinkID'' = Some l" "l \<noteq> []" "cm l = Some c"
    and master: "if truthy (get c ''MasterLinkID'') \<and> cm (the (get c ''MasterLinkID'')) \<noteq> None
                 then get_component_data pf os depth (master_ref (the (get c ''MasterLinkID'')))
                        cm tm dir st = (Inr (Some md), stm)
                 else md = [] \<and> stm = st"
  shows "\<exists>d st'. get_component_data pf os (Suc depth) ref cm tm dir st = (Inr (Some d), st')
     \<and> (get c ''Class'' \<in> set [Some ''NiTransformationComponent'', Some ''NiSceneGraphComponent'',
              Some ''NiLightComponent'', Some ''NiCameraComponent'',
              Some ''NiGeneralComponent'', Some ''NiCollisionComponent'']
          \<longrightarrow> unhandled st' = unhandled stm)
     \<and> (get c ''Class'' \<notin> set [Some ''NiTransformationComponent'', Some ''NiSceneGraphComponent'',
              Some ''NiLightComponent'', Some ''NiCameraComponent'',
              Some ''NiGeneralComponent'', Some ''NiCollisionComponent'']
          \<longrightarrow> unhandled st' =
                insert ((case get c ''Class'' of None \<Rightarrow> ''None'' | Some s \<Rightarrow> s) @ ''::'' @
                        (case get c ''Name'' of None \<Rightarrow> ''None'' | Some s \<Rightarrow> s))
                  (unhandled stm)
              \<and> ((case get c ''Class'' of None \<Rightarrow> ''None'' | Some s \<Rightarrow> s) @ ''::'' @
                 (case get c ''Name'' of None \<Rightarrow> ''None'' | Some s \<Rightarrow> s) \<in> unhandled stm
                   \<longrightarrow> unhandled st' = unhandled stm)
              \<and> logged st' = logged stm
              \<and> d = setitem ''name'' (case get c ''Name'' of None \<Rightarrow> PNone | Some s \<Rightarrow> PStr s)
                    (setitem ''class'' (case get c ''Class'' of None \<Rightarrow> PNone | Some s \<Rightarrow> PStr s)
                       (setitem ''link_id'' (PStr l) md)))
     \<and> (\<forall>x \<in> unhandled st'. x \<in> unhandled st \<or>
           (\<exists>c' \<in> ran cm.
              get c' ''Class'' \<notin> set [Some ''NiTransformationComponent'',
                 Some ''NiSceneGraphComponent'', Some ''NiLightComponent'',
                 Some ''NiCameraComponent'', Some ''NiGeneralComponent'',
                 Some ''NiCollisionComponent'']
              \<and> x = (case get c' ''Class'' of None \<Rightarrow> ''None'' | Some s \<Rightarrow> s) @ ''::'' @
                     (case get c' ''Name'' of None \<Rightarrow> ''None'' | Some s \<Rightarrow> s)))"
proof -
  let ?six = "[Some ''NiTransformationComponent'', Some ''NiSceneGraphComponent'',
              Some ''NiLightComponent'', Some ''NiCameraComponent'',
              Some ''NiGeneralComponent'', Some ''NiCollisionComponent'']"
  let ?entry = "\<lambda>c. (case get c ''Class'' of None \<Rightarrow> ''None'' | Some s \<Rightarrow> s) @ ''::'' @
                     (case get c ''Name'' of None \<Rightarrow> ''None'' | Some s \<Rightarrow> s)"
  have un: "unhandled_name c' = ?entry c'" for c'
    by (simp add: unhandled_name_def fmt_def)
  have r: "get_component_data pf os (Suc depth) ref cm tm dir st =
           (Inr (Some (fst (component_body pf os l c dir md stm))),
            snd (component_body pf os l c dir md stm))"
    using ref master by (rule gcd_resolved)
  have a: "unhandled (snd (component_body pf os l c dir md stm)) = unhandled stm"
    if "get c ''Class'' \<in> set ?six"
    using that by (simp only: body_unhandled recognized_list if_True)
  have b: "component_body pf os l c dir md stm =
           (setitem ''name'' (case get c ''Name'' of None \<Rightarrow> PNone | Some s \<Rightarrow> PStr s)
              (setitem ''class'' (case get c ''Class'' of None \<Rightarrow> PNone | Some s \<Rightarrow> PStr s)
                 (setitem ''link_id'' (PStr l) md)),
            stm\<lparr>unhandled := insert (?entry c) (unhandled stm)\<rparr>)"
    if "get c ''Class'' \<notin> set ?six"
  proof -
    have "\<not> recognized (get c ''Class'')" using that by (simp only: recognized_list not_False_eq_True)
    then show ?thesis
      using body_unrecognized[of c pf os l dir md stm] by (simp add: un opt_str_def)
  qed
  have inv: "unhandled (snd (component_body pf os l c dir md stm)) \<subseteq> unhandled st \<union>
            {unhandled_name c | c. c \<in> ran cm \<and> \<not> recognized (get c ''Class'')}"
    using gcd_invariant[OF r] by blast
  have c: "\<forall>x \<in> unhandled (snd (component_body pf os l c dir md stm)). x \<in> unhandled st \<or>
           (\<exists>c' \<in> ran cm. get c' ''Class'' \<notin> set ?six \<and> x = ?entry c')"
  proof
    fix x assume "x \<in> unhandled (snd (component_body pf os l c dir md stm))"
    then have "x \<in> unhandled st \<or> (\<exists>c'. x = unhandled_name c' \<and> c' \<in> ran cm
                 \<and> \<not> recognized (get c' ''Class''))"
      using inv by blast
    then show "x \<in> unhandled st \<or>
           (\<exists>c' \<in> ran cm. get c' ''Class'' \<notin> set ?six \<and> x = ?entry c')"
      unfolding un recognized_list by blast
  qed
  show ?thesis
  proof (intro exI conjI impI)
    show "get_component_data pf os (Suc depth) ref cm tm dir st =
           (Inr (Some (fst (component_body pf os l c dir md stm))),
            snd (component_body pf os l c dir md stm))"
      by (rule r)
  next
    assume "get c ''Class'' \<in> set ?six"
    then show "unhandled (snd (component_body pf os l c dir md stm)) = unhandled stm"
      by (rule a)
  next
    assume h: "get c ''Class'' \<notin> set ?six"
    show "unhandled (snd (component_body pf os l c dir md stm)) =
            insert (?entry c) (unhandled stm)"
      unfolding b[OF h] by simp
  next
    assume h: "get c ''Class'' \<notin> set ?six" and "?entry c \<in> unhandled stm"
    then show "unhandled (snd (component_body pf os l c dir md stm)) = unhandled stm"
      unfolding b[OF h] by (simp add: insert_absorb)
  next
    assume h: "get c ''Class'' \<notin> set ?six"
    show "logged (snd (component_body pf os l c dir md stm)) = logged stm"
      unfolding b[OF h] by simp
  next
    assume h: "get c ''Class'' \<notin> set ?six"
    show "fst (component_body pf os l c dir md stm) =
            setitem ''name'' (case get c ''Name'' of None \<Rightarrow> PNone | Some s \<Rightarrow> PStr s)
              (setitem ''class'' (case get c ''Class'' of None \<Rightarrow> PNone | Some s \<Rightarrow> PStr s)
                 (setitem ''link_id'' (PStr l) md))"
      unfolding b[OF h] by simp
  next
    show "\<forall>x \<in> unhandled (snd (component_body pf os l c dir md stm)). x \<in> unhandled st \<or>
           (\<exists>c' \<in> ran cm. get c' ''Class'' \<notin> set ?six \<and> x = ?entry c')"
      by (rule c)
  qed
qed

text \<open>
  C7 at a map with two components \<^verbatim>\<open>NiFooBarComponent::Foo\<close> and one collision component:
  the first resolution enters the name, the second finds it there, the third adds nothing.
\<close>

theorem C7_witness:
  "(\<exists>d st'. get_component_data pf_ex Posix 1 (comp_ref ''3'') foo_map Map.empty ''maps'' st0
              = (Inr (Some d), st')
      \<and> unhandled st' = {''NiFooBarComponent::Foo''}
      \<and> d = [(''link_id'', PStr ''3''), (''class'', PStr ''NiFooBarComponent''),
             (''name'', PStr ''Foo'')])
   \<and> (\<exists>d st'. get_component_data pf_ex Posix 1 (comp_ref ''4'') foo_map Map.empty ''maps''
                (st0\<lparr>unhandled := {''NiFooBarComponent::Foo''}\<rparr>) = (Inr (Some d), st')
      \<and> unhandled st' = {''NiFooBarComponent::Foo''})
   \<and> (\<exists>d st'. get_component_data pf_ex Posix 1 (comp_ref ''6'') foo_map Map.empty ''maps''
                (st0\<lparr>unhandled := {''NiFooBarComponent::Foo''}\<rparr>) = (Inr (Some d), st')
      \<and> unhandled st' = {''NiFooBarComponent::Foo''})"
proof (intro conjI)
  have h: "get (comp_ref ''3'') ''RefLinkID'' = Some ''3''" "''3'' \<noteq> []"
    "foo_map ''3'' = Some foo_comp"
    by (simp_all add: foo_map_def get_def)
  have m: "if truthy (get foo_comp ''MasterLinkID'')
              \<and> foo_map (the (get foo_comp ''MasterLinkID'')) \<noteq> None
           then get_component_data pf_ex Posix 0 (master_ref (the (get foo_comp ''MasterLinkID'')))
                  foo_map Map.empty ''maps'' st0 = (Inr (Some []), st0)
           else [] = ([] :: rat pydict) \<and> st0 = st0"
    by (simp add: foo_comp_def get_def truthy_def)
  show "\<exists>d st'. get_component_data pf_ex Posix 1 (comp_ref ''3'') foo_map Map.empty ''maps'' st0
              = (Inr (Some d), st')
      \<and> unhandled st' = {''NiFooBarComponent::Foo''}
      \<and> d = [(''link_id'', PStr ''3''), (''class'', PStr ''NiFooBarComponent''),
             (''name'', PStr ''Foo'')]"
    using C7_unhandled[OF h m]
    by (auto simp: foo_comp_def get_def st0_def)
next
  let ?st = "st0\<lparr>unhandled := {''NiFooBarComponent::Foo''}\<rparr>"
  have h: "get (comp_ref ''4'') ''RefLinkID'' = Some ''4''" "''4'' \<noteq> []"
    "foo_map ''4'' = Some foo_comp2"
    by (simp_all add: foo_map_def get_def)
  have m: "if truthy (get foo_comp2 ''MasterLinkID'')
              \<and> foo_map (the (get foo_comp2 ''MasterLinkID'')) \<noteq> None
           then get_component_data pf_ex Posix 0 (master_ref (the (get foo_comp2 ''MasterLinkID'')))
                  foo_map Map.empty ''maps'' ?st = (Inr (Some []), ?st)
           else [] = ([] :: rat pydict) \<and> ?st = ?st"
    by (simp add: foo_comp2_def get_def truthy_def)
  show "\<exists>d st'. get_component_data pf_ex Posix 1 (comp_ref ''4'') foo_map Map.empty ''maps'' ?st
              = (Inr (Some d), st')
      \<and> unhandled st' = {''NiFooBarComponent::Foo''}"
    using C7_unhandled[OF h m]
    by (auto simp: foo_comp2_def get_def st0_def)
next
  let ?st = "st0\<lparr>unhandled := {''NiFooBarComponent::Foo''}\<rparr>"
  have h: "get (comp_ref ''6'') ''RefLinkID'' = Some ''6''" "''6'' \<noteq> []"
    "foo_map ''6'' = Some collision_comp"
    by (simp_all add: foo_map_def get_def)
  have m: "if truthy (get collision_comp ''MasterLinkID'')
              \<and> foo_map (the (get collision_comp ''MasterLinkID'')) \<noteq> None
           then get_component_data pf_ex Posix 0
                  (master_ref (the (get collision_comp ''MasterLinkID'')))
                  foo_map Map.empty ''maps'' ?st = (Inr (Some []), ?st)
           else [] = ([] :: rat pydict) \<and> ?st = ?st"
    by (simp add: collision_comp_def get_def truthy_def)
  show "\<exists>d st'. get_component_data pf_ex Posix 1 (comp_ref ''6'') foo_map Map.empty ''maps'' ?st
              = (Inr (Some d), st')
      \<and> unhandled st' = {''NiFooBarComponent::Foo''}"
    using C7_unhandled[OF h m]
    by (auto simp: collision_comp_def get_def st0_def)
qed

section \<open>The base triple\<close>

text \<open>
  The data of a resolved component always have the keys \<^verbatim>\<open>link_id\<close>, \<^verbatim>\<open>class\<close> and
  \<^verbatim>\<open>name\<close>, and each of the three holds the value of the directly referenced component,
  whatever the master chain contributed, unless the component is a light with a property
  whose key is that name.
\<close>

lemma resolved_base_triple:
  assumes ref: "get ref ''RefLinkID'' = Some l" "l \<noteq> []" "cm l = Some c"
    and master: "if truthy (get c ''MasterLinkID'') \<and> cm (the (get c ''MasterLinkID'')) \<noteq> None
                 then get_component_data pf os depth (master_ref (the (get c ''MasterLinkID'')))
                        cm tm dir st = (Inr (Some md), stm)
                 else md = [] \<and> stm = st"
  shows "\<exists>d st'. get_component_data pf os (Suc depth) ref cm tm dir st = (Inr (Some d), st')
     \<and> ''link_id'' \<in> fst ` set d \<and> ''class'' \<in> fst ` set d \<and> ''name'' \<in> fst ` set d
     \<and> ((get c ''Class'' = Some ''NiLightComponent'' \<longrightarrow>
            (\<forall>p \<in> set (findall c ''PROPERTY''). \<forall>n. get p ''Name'' = Some n
               \<longrightarrow> key_name n \<noteq> ''link_id''))
          \<longrightarrow> map_of d ''link_id'' = Some (PStr l))
     \<and> ((get c ''Class'' = Some ''NiLightComponent'' \<longrightarrow>
            (\<forall>p \<in> set (findall c ''PROPERTY''). \<forall>n. get p ''Name'' = Some n
               \<longrightarrow> key_name n \<noteq> ''class''))
          \<longrightarrow> map_of d ''class'' = Some (opt_str (get c ''Class'')))
     \<and> ((get c ''Class'' = Some ''NiLightComponent'' \<longrightarrow>
            (\<forall>p \<in> set (findall c ''PROPERTY''). \<forall>n. get p ''Name'' = Some n
               \<longrightarrow> key_name n \<noteq> ''name''))
          \<longrightarrow> map_of d ''name'' = Some (opt_str (get c ''Name'')))"
proof -
  have r: "get_component_data pf os (Suc depth) ref cm tm dir st =
           (Inr (Some (fst (component_body pf os l c dir md stm))),
            snd (component_body pf os l c dir md stm))"
    using ref master by (rule gcd_resolved)
  show ?thesis
    unfolding r
    using body_has_triple[of "''link_id''" pf os l c dir md stm]
      body_has_triple[of "''class''" pf os l c dir md stm]
      body_has_triple[of "''name''" pf os l c dir md stm]
      body_link_id[of c pf os l dir md stm] body_class[of c pf os l dir md stm]
      body_name[of c pf os l dir md stm]
    by blast
qed

text \<open>
  Claim C10 is not met by the code for a light. The properties of a light are merged
  into the data after the base triple has been written, under keys made from their
  names, and a property whose key is \<^verbatim>\<open>link_id\<close>, \<^verbatim>\<open>class\<close> or \<^verbatim>\<open>name\<close> takes the place of
  the component's own value. The light below has the link identifier \<^verbatim>\<open>7\<close> and the name
  \<^verbatim>\<open>Sun\<close>; it is reported with the link identifier \<^verbatim>\<open>3.0\<close>, a float, and with a list as
  its name, on which the entity that holds it fails with a \<^verbatim>\<open>TypeError\<close>.
\<close>

theorem C10_light_overwrites_triple:
  "get light_comp ''LinkID'' = Some ''7'' \<and> get light_comp ''Name'' = Some ''Sun''
   \<and> get_component_data pf_ex Posix 1 (comp_ref ''7'') light_map Map.empty ''maps'' st0 =
       (Inr (Some [(''link_id'', PFloat 3), (''class'', PStr ''NiLightComponent''),
                   (''name'', PStrs [''9''])]), st0)
   \<and> get_entity_data pf_ex Posix 1 light_entity light_map entity_templates ''maps'' st0 =
       (Inl TypeError, st0)"
  by (simp add: get_entity_data_def light_entity_def entity_templates_def template_entity_def
        light_map_def light_comp_def pf_ex_def ex_eval)

section \<open>Light properties\<close>

lemma lower_char_fixed:
  assumes "x \<notin> set upper_letters" "x \<notin> set lower_letters"
  shows "lower_char ch = x \<longleftrightarrow> ch = x"
proof
  assume h: "lower_char ch = x"
  show "ch = x"
  proof (cases "map_of (zip upper_letters lower_letters) ch")
    case None
    then show ?thesis using h by (simp add: lower_char_def)
  next
    case (Some d)
    then have "(ch, d) \<in> set (zip upper_letters lower_letters)" by (rule map_of_SomeD)
    then have "d \<in> set lower_letters" by (rule set_zip_rightD)
    moreover have "d = x" using h Some by (simp add: lower_char_def)
    ultimately show ?thesis using assms(2) by simp
  qed
next
  assume "ch = x"
  moreover have "length upper_letters = length lower_letters"
    by (simp add: upper_letters_def lower_letters_def)
  then have "map_of (zip upper_letters lower_letters) x = None"
    using assms(1) by (simp add: map_of_zip_is_None)
  ultimately show "lower_char ch = x" by (simp add: lower_char_def)
qed

lemma lower_char_space: "lower_char ch = CHR '' '' \<longleftrightarrow> ch = CHR '' ''"
  by (rule lower_char_fixed) (simp_all add: upper_letters_def lower_letters_def)

lemma lower_char_open: "lower_char ch = CHR ''('' \<longleftrightarrow> ch = CHR ''(''"
  by (rule lower_char_fixed) (simp_all add: upper_letters_def lower_letters_def)

lemma lower_char_close: "lower_char ch = CHR '')'' \<longleftrightarrow> ch = CHR '')''"
  by (rule lower_char_fixed) (simp_all add: upper_letters_def lower_letters_def)

lemma key_name_chars:
  "key_name n = map (\<lambda>ch. if ch = CHR '' '' then CHR ''_'' else lower_char ch)
                  (filter (\<lambda>ch. ch \<noteq> CHR ''('' \<and> ch \<noteq> CHR '')'') n)"
  by (induction n)
     (simp_all add: key_name_def remove_char_def replace_char_def lower_def
        lower_char_space lower_char_open lower_char_close)

lemma plp_fst_eq:
  "fst (parse_light_prop pf p (d, st)) =
     (if \<not> truthy (get p ''Name'') then d
      else case (if get p ''Class'' = Some ''Entity Pointer''
            then Some (PStrs (map (\<lambda>item. the (get item ''RefLinkID''))
                   (filter (\<lambda>item. truthy (get item ''RefLinkID'')) (findall p ''ITEM''))))
            else if get p ''Class'' = Some ''Color (RGB)''
            then map_option PFloats
                   (parse_floats pf (if truthy (etext p) then strip (the (etext p)) else []))
            else if get p ''Class'' = Some ''Float''
            then map_option PFloat (pf (if truthy (etext p) then strip (the (etext p)) else []))
            else Some (PStr (if truthy (etext p) then strip (the (etext p)) else []))) of
        Some v \<Rightarrow> setitem (key_name (the (get p ''Name''))) v d
      | None \<Rightarrow> d)"
  by (simp add: parse_light_prop_def Let_def split: option.splits)

lemma plp_other_key:
  assumes "\<forall>n. get p ''Name'' = Some n \<longrightarrow> n = [] \<or> key_name n \<noteq> k"
  shows "map_of (fst (parse_light_prop pf p (d, st))) k = map_of d k"
proof (cases "truthy (get p ''Name'')")
  case False
  then show ?thesis by (simp only: plp_fst_eq if_True not_False_eq_True simp_thms)
next
  case True
  then obtain n where n: "get p ''Name'' = Some n" "n \<noteq> []"
    by (cases "get p ''Name''") (auto simp: truthy_def)
  then have k: "key_name (the (get p ''Name'')) \<noteq> k" using assms by auto
  have "map_of (case v of Some w \<Rightarrow> setitem (key_name (the (get p ''Name''))) w d | None \<Rightarrow> d) k
        = map_of d k" for v :: "'a pyval option"
    using k by (cases v) (simp_all add: map_of_setitem)
  then show ?thesis using True by (simp only: plp_fst_eq simp_thms if_False)
qed

lemma plp_this_key:
  assumes "get p ''Name'' = Some n" "n \<noteq> []"
  shows "map_of (fst (parse_light_prop pf p (d, st))) (key_name n) =
     (case (if get p ''Class'' = Some ''Entity Pointer''
            then Some (PStrs (map (\<lambda>item. the (get item ''RefLinkID''))
                   (filter (\<lambda>item. truthy (get item ''RefLinkID'')) (findall p ''ITEM''))))
            else if get p ''Class'' = Some ''Color (RGB)''
            then map_option PFloats
                   (parse_floats pf (if truthy (etext p) then strip (the (etext p)) else []))
            else if get p ''Class'' = Some ''Float''
            then map_option PFloat (pf (if truthy (etext p) then strip (the (etext p)) else []))
            else Some (PStr (if truthy (etext p) then strip (the (etext p)) else []))) of
        Some v \<Rightarrow> Some v
      | None \<Rightarrow> map_of d (key_name n))"
proof -
  have t: "truthy (get p ''Name'')" using assms by (simp add: truthy_def)
  have n: "the (get p ''Name'') = n" using assms by simp
  have "map_of (case v of Some w \<Rightarrow> setitem (key_name n) w d | None \<Rightarrow> d) (key_name n)
        = (case v of Some w \<Rightarrow> Some w | None \<Rightarrow> map_of d (key_name n))"
    for v :: "'a pyval option"
    by (cases v) (simp_all add: map_of_setitem)
  then show ?thesis using t by (simp only: plp_fst_eq n simp_thms if_False)
qed

lemma pl_fold_other_key:
  assumes "\<forall>p \<in> set ps. \<forall>n. get p ''Name'' = Some n \<longrightarrow> n = [] \<or> key_name n \<noteq> k"
  shows "map_of (fst (fold (parse_light_prop pf) ps (d, st))) k = map_of d k"
  using assms
proof (induction ps arbitrary: d st)
  case Nil then show ?case by simp
next
  case (Cons p ps)
  obtain d1 st1 where a: "parse_light_prop pf p (d, st) = (d1, st1)" by force
  have "map_of d1 k = map_of d k"
    using plp_other_key[of p k pf d st] Cons.prems a by simp
  moreover have "map_of (fst (fold (parse_light_prop pf) ps (d1, st1))) k = map_of d1 k"
    using Cons.prems by (intro Cons.IH) simp
  ultimately show ?case using a by simp
qed

text \<open>
  Claim C9 fails as stated: a space in a property name becomes an underscore and is not
  stripped, of the punctuation only the two parentheses are removed, and a colour has as
  many numbers as its text has fields, here two.
\<close>

theorem C9_counterexample:
  "key_name ''Dimmer Value'' = ''dimmer_value'' \<and> key_name ''Far-Clip (m)'' = ''far-clip_m''
   \<and> fst (parse_light pf_ex dimmer_comp st0) = [(''dimmer_value'', PFloat 2)]
   \<and> fst (parse_light pf_ex colour_comp st0) = [(''ambient_color'', PFloats [1, 2])]"
  by (simp add: dimmer_comp_def colour_comp_def pf_ex_def ex_eval)

text \<open>
  Claim C9, as amended. The key of a light property is its name in lower case with each
  space replaced by an underscore and the parentheses removed. For a property with a
  name, after which no property of the component has the same key, the light's data
  hold under that key: the list of the non-empty \<^verbatim>\<open>RefLinkID\<close>s of its \<^verbatim>\<open>ITEM\<close> children
  when its class is \<^verbatim>\<open>Entity Pointer\<close>; the list of floats of its comma-separated
  stripped text when its class is \<^verbatim>\<open>Color (RGB)\<close>, of whatever length; the float of its
  stripped text when its class is \<^verbatim>\<open>Float\<close>; and the stripped text itself otherwise. A
  colour or a float that does not parse leaves the key as the properties before it did.
\<close>

theorem C9_light_properties:
  assumes props: "findall c ''PROPERTY'' = pre @ p # post"
    and name: "get p ''Name'' = Some n" "n \<noteq> []"
    and later: "\<forall>q \<in> set post. \<forall>n'. get q ''Name'' = Some n'
                   \<longrightarrow> n' = [] \<or> key_name n' \<noteq> key_name n"
  shows "key_name n = map (\<lambda>ch. if ch = CHR '' '' then CHR ''_'' else lower_char ch)
                        (filter (\<lambda>ch. ch \<noteq> CHR ''('' \<and> ch \<noteq> CHR '')'') n)
    \<and> map_of (fst (parse_light pf c st)) (key_name n) =
       (case (if get p ''Class'' = Some ''Entity Pointer''
              then Some (PStrs (map (\<lambda>item. the (get item ''RefLinkID''))
                     (filter (\<lambda>item. truthy (get item ''RefLinkID'')) (findall p ''ITEM''))))
              else if get p ''Class'' = Some ''Color (RGB)''
              then map_option PFloats
                     (parse_floats pf (if truthy (etext p) then strip (the (etext p)) else []))
              else if get p ''Class'' = Some ''Float''
              then map_option PFloat
                     (pf (if truthy (etext p) then strip (the (etext p)) else []))
              else Some (PStr (if truthy (etext p) then strip (the (etext p)) else []))) of
          Some v \<Rightarrow> Some v
        | None \<Rightarrow> map_of (fst (fold (parse_light_prop pf) pre ([], st))) (key_name n))"
proof
  show "key_name n = map (\<lambda>ch. if ch = CHR '' '' then CHR ''_'' else lower_char ch)
                        (filter (\<lambda>ch. ch \<noteq> CHR ''('' \<and> ch \<noteq> CHR '')'') n)"
    by (rule key_name_chars)
next
  let ?v = "if get p ''Class'' = Some ''Entity Pointer''
        then Some (PStrs (map (\<lambda>item. the (get item ''RefLinkID''))
               (filter (\<lambda>item. truthy (get item ''RefLinkID'')) (findall p ''ITEM''))))
        else if get p ''Class'' = Some ''Color (RGB)''
        then map_option PFloats
               (parse_floats pf (if truthy (etext p) then strip (the (etext p)) else []))
        else if get p ''Class'' = Some ''Float''
        then map_option PFloat (pf (if truthy (etext p) then strip (the (etext p)) else []))
        else Some (PStr (if truthy (etext p) then strip (the (etext p)) else []))"
  obtain d1 s1 where a: "fold (parse_light_prop pf) pre ([], st) = (d1, s1)" by force
  obtain d2 s2 where b: "parse_light_prop pf p (d1, s1) = (d2, s2)" by force
  have "map_of (fst (parse_light_prop pf p (d1, s1))) (key_name n) =
          (case ?v of Some v \<Rightarrow> Some v | None \<Rightarrow> map_of d1 (key_name n))"
    using name by (rule plp_this_key)
  then have k2: "map_of d2 (key_name n) =
          (case ?v of Some v \<Rightarrow> Some v | None \<Rightarrow> map_of d1 (key_name n))"
    unfolding b by simp
  have k3: "map_of (fst (fold (parse_light_prop pf) post (d2, s2))) (key_name n)
          = map_of d2 (key_name n)"
    using later by (rule pl_fold_other_key)
  have pl: "parse_light pf c st = fold (parse_light_prop pf) post (d2, s2)"
    by (simp add: parse_light_def props a b)
  have d1: "fst (fold (parse_light_prop pf) pre ([], st)) = d1"
    by (simp only: a fst_conv)
  show "map_of (fst (parse_light pf c st)) (key_name n) =
         (case ?v of Some v \<Rightarrow> Some v
          | None \<Rightarrow> map_of (fst (fold (parse_light_prop pf) pre ([], st))) (key_name n))"
    unfolding pl k3 k2 d1 ..
qed

text \<open>C9 at the light whose one property is the float \<^verbatim>\<open>Dimmer Value\<close>.\<close>

theorem C9_witness:
  "map_of (fst (parse_light pf_ex dimmer_comp st0)) ''dimmer_value'' = Some (PFloat 2)"
proof -
  let ?p = "Element ''PROPERTY'' [(''Name'', ''Dimmer Value''), (''Class'', ''Float'')]
              (Some '' 2.0 '') []"
  have props: "findall dimmer_comp ''PROPERTY'' = [] @ ?p # []"
    by (simp add: dimmer_comp_def findall_def)
  have name: "get ?p ''Name'' = Some ''Dimmer Value''" by (simp add: get_def)
  have k: "key_name ''Dimmer Value'' = ''dimmer_value''" by (simp add: ex_eval)
  have s: "strip '' 2.0 '' = ''2.0''" by (simp add: strip_def isspace_def)
  show ?thesis
    using C9_light_properties[OF props name, of pf_ex st0, THEN conjunct2, unfolded k]
    by (simp add: s get_def truthy_def pf_ex_def)
qed

section \<open>Entities\<close>

lemma set_setitem: "set (setitem k v d) \<subseteq> insert (k, v) (set d)"
  by (induction d) (auto split: if_splits)

lemma collect_named:
  assumes "collect_components pf os depth refs cm tm dir acc st = (Inr R, st')"
    and "distinct (map fst acc)"
    and "\<forall>(k, d) \<in> set acc. P k d"
    and step: "\<And>ref s s' d n. ref \<in> set refs \<Longrightarrow>
                 get_component_data pf os depth ref cm tm dir s = (Inr (Some d), s') \<Longrightarrow>
                 map_of d ''name'' = Some n \<Longrightarrow> P n d"
  shows "distinct (map fst R) \<and> (\<forall>(k, d) \<in> set R. P k d)"
  using assms
proof (induction refs arbitrary: acc st)
  case Nil
  then show ?case by simp
next
  case (Cons comp_ref refs)
  obtain r st1 where
    g: "get_component_data pf os depth comp_ref cm tm dir st = (r, st1)"
    by force
  have step': "P n d" if "ref \<in> set refs"
    "get_component_data pf os depth ref cm tm dir s = (Inr (Some d), s')"
    "map_of d ''name'' = Some n" for ref s s' d n
    using that(1) by (intro Cons.prems(4)[OF _ that(2,3)]) simp
  show ?case
  proof (cases r)
    case (Inl e)
    then show ?thesis using Cons.prems(1) g by simp
  next
    case (Inr x)
    show ?thesis
    proof (cases x)
      case None
      then have "collect_components pf os depth refs cm tm dir acc st1 = (Inr R, st')"
        using Cons.prems(1) g Inr by simp
      then show ?thesis using Cons.prems(2,3) step' by (rule Cons.IH)
    next
      case (Some comp_data)
      show ?thesis
      proof (cases "comp_data = []")
        case True
        then have "collect_components pf os depth refs cm tm dir acc st1 = (Inr R, st')"
          using Cons.prems(1) g Inr Some by simp
        then show ?thesis using Cons.prems(2,3) step' by (rule Cons.IH)
      next
        case False
        from Cons.prems(1) g Inr Some False obtain n where
          n: "map_of comp_data ''name'' = Some n" "hashable n"
          and c: "collect_components pf os depth refs cm tm dir (setitem n comp_data acc) st1
                    = (Inr R, st')"
          by (auto split: option.splits if_splits)
        have d: "distinct (map fst (setitem n comp_data acc))"
          using Cons.prems(2) by (rule distinct_setitem)
        have g': "get_component_data pf os depth comp_ref cm tm dir st
                    = (Inr (Some comp_data), st1)"
          using g Inr Some by simp
        have "P n comp_data"
          by (rule Cons.prems(4)[OF _ g' n(1)]) simp
        then have e: "\<forall>(k, d) \<in> set (setitem n comp_data acc). P k d"
          using Cons.prems(3) set_setitem[of n comp_data acc] by auto
        show ?thesis using c d e step' by (rule Cons.IH)
      qed
    qed
  qed
qed

lemma update_dict_overlay:
  assumes "distinct (map fst I)"
  shows "map_of (update_dict T I) n = (case map_of I n of Some d \<Rightarrow> Some d | None \<Rightarrow> map_of T n)"
  using assms by (simp add: map_of_update_dict map_of_rev_distinct map_add_def)

lemma ged_Some:
  assumes "get_entity_data pf os depth entity cm tm dir st = (Inr (Some ed), st')"
  obtains ml tmpl T I st1 where
    "get entity ''MasterLinkID'' = Some ml" "ml \<noteq> []" "tm ml = Some tmpl"
    "collect_components pf os depth (findall tmpl ''COMPONENT'') cm tm dir [] st = (Inr T, st1)"
    "collect_components pf os depth (findall entity ''COMPONENT'') cm tm dir [] st1 = (Inr I, st')"
    "ed = \<lparr>name = get entity ''Name'', class_name = get entity ''Class'',
           type_name = get entity ''Type'', template_id = get tmpl ''LinkID'',
           instance_id = get entity ''LinkID'',
           components = map snd (update_dict T I)\<rparr>"
  using assms unfolding get_entity_data_def
  by (auto split: option.splits if_splits sum.splits prod.splits simp: Let_def)

lemma ged_returns:
  assumes "get entity ''MasterLinkID'' = Some ml" "ml \<noteq> []" "tm ml = Some tmpl"
    and "collect_components pf os depth (findall tmpl ''COMPONENT'') cm tm dir [] st = (Inr T, st1)"
    and "collect_components pf os depth (findall entity ''COMPONENT'') cm tm dir [] st1
           = (Inr I, st')"
  shows "get_entity_data pf os depth entity cm tm dir st =
           (Inr (Some \<lparr>name = get entity ''Name'', class_name = get entity ''Class'',
                       type_name = get entity ''Type'', template_id = get tmpl ''LinkID'',
                       instance_id = get entity ''LinkID'',
                       components = map snd (update_dict T I)\<rparr>), st')"
  using assms by (simp add: get_entity_data_def)



section \<open>Instances without a template\<close>

text \<open>
  Claim C6 fails as stated: nothing is written to the log for an instance whose master
  link is not a key of the template map. Over a document with a template, such an
  instance and a good instance, the second pass emits the one record of the good
  instance and logs its start and its end, nothing else.
\<close>

theorem C6_counterexample:
  "get_entity_data pf_ex Posix 1 orphan_entity root_map entity_templates ''maps'' st0
     = (Inr None, st0)
   \<and> (case second_pass pf_ex Posix 1
             (Element ''GSA'' [] None [template_entity, orphan_entity, instance_entity])
             root_map entity_templates ''maps'' st0 of
        (r, st) \<Rightarrow> (map_sum id (map instance_id) r, logged st))
     = (Inr [Some ''101''], [Second_pass_start, Second_pass_complete])"
  by (simp add: get_entity_data_def second_pass_def iterparse_def clear_def
        root_map_def pf_ex_def
        root_template_def root_instance_def entity_templates_def template_entity_def
        instance_entity_def orphan_entity_def ex_eval)

text \<open>
  Claim C6, as amended. For an instance entity whose master link is empty or is not a key
  of the template map, the resolution returns \<^verbatim>\<open>None\<close> and leaves the log and the set of
  unhandled classes as they were, and the loop of the second pass goes on with the
  remaining entities from the same records and the same state: no record is emitted for
  the entity, nothing is logged and the run does not abort.
\<close>

theorem C6_dropped:
  assumes "get entity ''MasterLinkID'' = Some ml" and "ml = [] \<or> tmap ml = None"
  shows "get_entity_data pf os depth entity cmap tmap dir st = (Inr None, st)
       \<and> second_pass_loop pf os depth (entity # es) cmap tmap dir scene st
           = second_pass_loop pf os depth es cmap tmap dir scene st"
  using assms by (auto simp: get_entity_data_def)

text \<open>C6 at the instance of a template that does not exist.\<close>

theorem C6_witness:
  "get_entity_data pf_ex Posix 1 orphan_entity root_map entity_templates ''maps'' st0
     = (Inr None, st0)
   \<and> second_pass_loop pf_ex Posix 1 [orphan_entity] root_map entity_templates ''maps'' [] st0
     = (Inr [], st0)"
  using C6_dropped[of orphan_entity "''999''" entity_templates pf_ex Posix 1 root_map "''maps''"
          st0 "[]" "[]"]
  by (simp add: orphan_entity_def entity_templates_def get_def)

section \<open>The keys of the first pass\<close>

text \<open>
  What does hold of the two dictionaries: a key is bound to the last event of its kind
  that carries it as its non-empty \<^verbatim>\<open>LinkID\<close>, and the object bound is, after the pass,
  the cleared element.
\<close>

lemma components_map_fold:
  "components_map (fold (\<lambda>ev idx. clear_step ev (first_pass_step ev idx)) evs idx) =
     bind_links (\<lambda>e. tag e = ''COMPONENT'') evs (components_map idx)"
  unfolding bind_links_def
  by (induction evs arbitrary: idx)
     (auto simp: first_pass_step_def clear_step_def Let_def split: prod.splits)

lemma templates_map_fold:
  "templates_map (fold (\<lambda>ev idx. clear_step ev (first_pass_step ev idx)) evs idx) =
     bind_links (\<lambda>e. tag e = ''ENTITY'' \<and> get e ''MasterLinkID'' = None) evs
       (templates_map idx)"
  unfolding bind_links_def
  by (induction evs arbitrary: idx)
     (auto simp: first_pass_step_def clear_step_def Let_def split: prod.splits)

lemma heap_fold:
  "heap (fold (\<lambda>ev idx. clear_step ev (first_pass_step ev idx)) evs idx) =
     heap idx @ map (\<lambda>ev. clear (snd ev)) evs"
  by (induction evs arbitrary: idx)
     (auto simp: first_pass_step_def clear_step_def Let_def split: prod.splits)

lemma bind_links_last:
  "map_of (bind_links P (zip [0..<length es] es) []) l = Some i \<longleftrightarrow>
     l \<noteq> [] \<and> i < length es \<and> P (es ! i) \<and> get (es ! i) ''LinkID'' = Some l \<and>
     (\<forall>j. i < j \<and> j < length es \<and> P (es ! j) \<longrightarrow> get (es ! j) ''LinkID'' \<noteq> Some l)"
proof (induction es arbitrary: i rule: rev_induct)
  case Nil
  show ?case by (simp add: bind_links_def)
next
  case (snoc e es)
  let ?n = "length es"
  have z: "zip [0..<length (es @ [e])] (es @ [e]) = zip [0..<?n] es @ [(?n, e)]"
    by simp
  let ?m = "bind_links P (zip [0..<?n] es) []"
  have b: "bind_links P (zip [0..<length (es @ [e])] (es @ [e])) [] =
             (if P e \<and> truthy (get e ''LinkID'')
              then setitem (the (get e ''LinkID'')) ?n ?m else ?m)"
    unfolding z by (simp add: bind_links_def)
  have old: "map_of ?m l = Some i \<longleftrightarrow>
     l \<noteq> [] \<and> i < ?n \<and> P (es ! i) \<and> get (es ! i) ''LinkID'' = Some l \<and>
     (\<forall>j. i < j \<and> j < ?n \<and> P (es ! j) \<longrightarrow> get (es ! j) ''LinkID'' \<noteq> Some l)" for i
    by (rule snoc.IH)
  show ?case
  proof (cases "P e \<and> get e ''LinkID'' = Some l \<and> l \<noteq> []")
    case True
    then have t: "P e \<and> truthy (get e ''LinkID'')" "the (get e ''LinkID'') = l"
      by (simp_all add: truthy_def)
    have lhs: "map_of (bind_links P (zip [0..<length (es @ [e])] (es @ [e])) []) l = Some ?n"
      unfolding b using t by (simp add: map_of_setitem)
    have rhs: "(l \<noteq> [] \<and> i < length (es @ [e]) \<and> P ((es @ [e]) ! i)
        \<and> get ((es @ [e]) ! i) ''LinkID'' = Some l \<and>
        (\<forall>j. i < j \<and> j < length (es @ [e]) \<and> P ((es @ [e]) ! j)
           \<longrightarrow> get ((es @ [e]) ! j) ''LinkID'' \<noteq> Some l)) \<longleftrightarrow> i = ?n"
    proof
      assume a: "l \<noteq> [] \<and> i < length (es @ [e]) \<and> P ((es @ [e]) ! i)
        \<and> get ((es @ [e]) ! i) ''LinkID'' = Some l \<and>
        (\<forall>j. i < j \<and> j < length (es @ [e]) \<and> P ((es @ [e]) ! j)
           \<longrightarrow> get ((es @ [e]) ! j) ''LinkID'' \<noteq> Some l)"
      show "i = ?n"
      proof (rule ccontr)
        assume "i \<noteq> ?n"
        then have "i < ?n" using a by simp
        then have "i < ?n \<and> ?n < length (es @ [e]) \<and> P ((es @ [e]) ! ?n)"
          using True by simp
        then have "get ((es @ [e]) ! ?n) ''LinkID'' \<noteq> Some l" using a by blast
        then show False using True by simp
      qed
    next
      assume "i = ?n"
      then show "l \<noteq> [] \<and> i < length (es @ [e]) \<and> P ((es @ [e]) ! i)
        \<and> get ((es @ [e]) ! i) ''LinkID'' = Some l \<and>
        (\<forall>j. i < j \<and> j < length (es @ [e]) \<and> P ((es @ [e]) ! j)
           \<longrightarrow> get ((es @ [e]) ! j) ''LinkID'' \<noteq> Some l)"
        using True by auto
    qed
    show ?thesis unfolding lhs rhs by auto
  next
    case False
    have lhs: "map_of (bind_links P (zip [0..<length (es @ [e])] (es @ [e])) []) l = map_of ?m l"
    proof (cases "P e \<and> truthy (get e ''LinkID'')")
      case True
      then have "the (get e ''LinkID'') \<noteq> l"
        using False by (cases "get e ''LinkID''") (auto simp: truthy_def)
      then show ?thesis unfolding b using True by (simp add: map_of_setitem)
    next
      case False
      then show ?thesis unfolding b by auto
    qed
    have rhs: "(l \<noteq> [] \<and> i < length (es @ [e]) \<and> P ((es @ [e]) ! i)
        \<and> get ((es @ [e]) ! i) ''LinkID'' = Some l \<and>
        (\<forall>j. i < j \<and> j < length (es @ [e]) \<and> P ((es @ [e]) ! j)
           \<longrightarrow> get ((es @ [e]) ! j) ''LinkID'' \<noteq> Some l)) \<longleftrightarrow>
       (l \<noteq> [] \<and> i < ?n \<and> P (es ! i) \<and> get (es ! i) ''LinkID'' = Some l \<and>
        (\<forall>j. i < j \<and> j < ?n \<and> P (es ! j) \<longrightarrow> get (es ! j) ''LinkID'' \<noteq> Some l))"
      (is "?A \<longleftrightarrow> ?B")
    proof
      assume a: ?A
      have "i \<noteq> ?n" using a False by auto
      then have i: "i < ?n" using a by simp
      have "\<forall>j. i < j \<and> j < ?n \<and> P (es ! j) \<longrightarrow> get (es ! j) ''LinkID'' \<noteq> Some l"
      proof (intro allI impI)
        fix j assume j: "i < j \<and> j < ?n \<and> P (es ! j)"
        then have "i < j \<and> j < length (es @ [e]) \<and> P ((es @ [e]) ! j)"
          by (simp add: nth_append)
        then have "get ((es @ [e]) ! j) ''LinkID'' \<noteq> Some l" using a by blast
        then show "get (es ! j) ''LinkID'' \<noteq> Some l" using j by (simp add: nth_append)
      qed
      then show ?B using a i by (simp add: nth_append)
    next
      assume b: ?B
      have "\<forall>j. i < j \<and> j < length (es @ [e]) \<and> P ((es @ [e]) ! j)
           \<longrightarrow> get ((es @ [e]) ! j) ''LinkID'' \<noteq> Some l"
      proof (intro allI impI)
        fix j assume j: "i < j \<and> j < length (es @ [e]) \<and> P ((es @ [e]) ! j)"
        show "get ((es @ [e]) ! j) ''LinkID'' \<noteq> Some l"
        proof (cases "j = ?n")
          case True
          then show ?thesis using j False b by auto
        next
          case False
          then have "j < ?n" using j by simp
          then show ?thesis using j b by (simp add: nth_append)
        qed
      qed
      then show ?A using b by (simp add: nth_append)
    qed
    show ?thesis unfolding lhs rhs by (rule old)
  qed
qed

lemma first_pass_keys:
  fixes doc st
  defines "events \<equiv> iterparse [''ENTITY'', ''COMPONENT''] doc"
    and "idx \<equiv> fst (first_pass doc st)"
  shows "heap idx = map clear events"
    and "map_of (components_map idx) l = Some i \<longleftrightarrow>
           l \<noteq> [] \<and> i < length events \<and> tag (events ! i) = ''COMPONENT''
           \<and> get (events ! i) ''LinkID'' = Some l \<and>
           (\<forall>j. i < j \<and> j < length events \<and> tag (events ! j) = ''COMPONENT''
                \<longrightarrow> get (events ! j) ''LinkID'' \<noteq> Some l)"
    and "map_of (templates_map idx) l = Some i \<longleftrightarrow>
           l \<noteq> [] \<and> i < length events
           \<and> (tag (events ! i) = ''ENTITY'' \<and> get (events ! i) ''MasterLinkID'' = None)
           \<and> get (events ! i) ''LinkID'' = Some l \<and>
           (\<forall>j. i < j \<and> j < length events
                 \<and> (tag (events ! j) = ''ENTITY'' \<and> get (events ! j) ''MasterLinkID'' = None)
                \<longrightarrow> get (events ! j) ''LinkID'' \<noteq> Some l)"
    and "deref (heap idx) (components_map idx) l = Some e \<longrightarrow> e = Element ''COMPONENT'' [] None []"
    and "deref (heap idx) (templates_map idx) l = Some e \<longrightarrow> e = Element ''ENTITY'' [] None []"
proof -
  have i: "idx = fold (\<lambda>ev idx. clear_step ev (first_pass_step ev idx))
                  (zip [0..<length events] events)
                  \<lparr>components_map = [], templates_map = [], heap = []\<rparr>"
    unfolding idx_def events_def by (simp add: first_pass_def Let_def)
  have ms: "map (\<lambda>ev. clear (snd ev)) (zip [0..<length events] events)
              = map clear (map snd (zip [0..<length events] events))"
    by (simp only: map_map comp_def)
  show h: "heap idx = map clear events"
    unfolding i heap_fold ms by (simp add: map_snd_zip)
  show c: "map_of (components_map idx) l = Some i \<longleftrightarrow>
           l \<noteq> [] \<and> i < length events \<and> tag (events ! i) = ''COMPONENT''
           \<and> get (events ! i) ''LinkID'' = Some l \<and>
           (\<forall>j. i < j \<and> j < length events \<and> tag (events ! j) = ''COMPONENT''
                \<longrightarrow> get (events ! j) ''LinkID'' \<noteq> Some l)" for i
    unfolding i components_map_fold by (simp only: link_index.simps bind_links_last)
  show t: "map_of (templates_map idx) l = Some i \<longleftrightarrow>
           l \<noteq> [] \<and> i < length events
           \<and> (tag (events ! i) = ''ENTITY'' \<and> get (events ! i) ''MasterLinkID'' = None)
           \<and> get (events ! i) ''LinkID'' = Some l \<and>
           (\<forall>j. i < j \<and> j < length events
                 \<and> (tag (events ! j) = ''ENTITY'' \<and> get (events ! j) ''MasterLinkID'' = None)
                \<longrightarrow> get (events ! j) ''LinkID'' \<noteq> Some l)" for i
    unfolding i templates_map_fold by (simp only: link_index.simps bind_links_last)
  show "deref (heap idx) (components_map idx) l = Some e \<longrightarrow> e = Element ''COMPONENT'' [] None []"
  proof
    assume "deref (heap idx) (components_map idx) l = Some e"
    then obtain k where k: "map_of (components_map idx) l = Some k" "e = heap idx ! k"
      by (auto simp: deref_def)
    then have "k < length events" "tag (events ! k) = ''COMPONENT''" using c[of k] by simp_all
    then show "e = Element ''COMPONENT'' [] None []" using k(2) h by (simp add: clear_def)
  qed
  show "deref (heap idx) (templates_map idx) l = Some e \<longrightarrow> e = Element ''ENTITY'' [] None []"
  proof
    assume "deref (heap idx) (templates_map idx) l = Some e"
    then obtain k where k: "map_of (templates_map idx) l = Some k" "e = heap idx ! k"
      by (auto simp: deref_def)
    then have "k < length events" "tag (events ! k) = ''ENTITY''" using t[of k] by simp_all
    then show "e = Element ''ENTITY'' [] None []" using k(2) h by (simp add: clear_def)
  qed
qed

section \<open>The first pass\<close>

lemmas pass_eval = first_pass_def first_pass_step_def clear_step_def iterparse_def clear_def
  deref_def convert_def second_pass_def get_entity_data_def

text \<open>
  Claim C8 is not met by the code: each element is cleared (line 266) right after it has
  been entered in its dictionary, and what the dictionary holds is that same object. In
  the document below the events 0 and 1 of the first pass are the two components
  \<^verbatim>\<open>Root\<close> as they were read, and the event 3 is the template. After the pass the keys
  are as the claim says, but the elements bound to them have no attribute, no text and
  no child left. The second pass therefore reports the instance with a component of
  class \<^verbatim>\<open>None\<close> and name \<^verbatim>\<open>None\<close> and without a template identifier, where the
  dictionaries of the elements as read give the component \<^verbatim>\<open>Root\<close> with its scale.
\<close>

theorem C8_first_pass_clears:
  "take 2 (iterparse [''ENTITY'', ''COMPONENT''] tree_doc) = [root_template, root_instance]
   \<and> components_map (fst (first_pass tree_doc st0)) = [(''20'', 0), (''21'', 1)]
   \<and> templates_map (fst (first_pass tree_doc st0)) = [(''100'', 3)]
   \<and> deref (heap (fst (first_pass tree_doc st0)))
        (components_map (fst (first_pass tree_doc st0))) ''21''
       = Some (Element ''COMPONENT'' [] None [])
   \<and> deref (heap (fst (first_pass tree_doc st0)))
        (templates_map (fst (first_pass tree_doc st0))) ''100''
       = Some (Element ''ENTITY'' [] None [])
   \<and> convert pf_ex Posix 1 tree_doc ''maps'' st0
       = (Inr [\<lparr>name = Some ''Tree 01'', class_name = Some ''NiEntity'', type_name = None,
                template_id = None, instance_id = Some ''101'',
                components = [[(''link_id'', PStr ''21''), (''class'', PNone),
                               (''name'', PNone)]]\<rparr>],
          \<lparr>logged = [First_pass_start, First_pass_complete 2 1, Second_pass_start,
                     Second_pass_complete],
           unhandled = {''None::None''}\<rparr>)
   \<and> fst (second_pass pf_ex Posix 1 tree_doc root_map entity_templates ''maps'' st0)
       = Inr [\<lparr>name = Some ''Tree 01'', class_name = Some ''NiEntity'', type_name = None,
               template_id = Some ''100'', instance_id = Some ''101'',
               components = [[(''link_id'', PStr ''21''),
                              (''class'', PStr ''NiTransformationComponent''),
                              (''name'', PStr ''Root''), (''scale'', PFloat 2)]]\<rparr>]"
proof (intro conjI)
  show "take 2 (iterparse [''ENTITY'', ''COMPONENT''] tree_doc) = [root_template, root_instance]"
    by (simp add: tree_doc_def root_template_def root_instance_def template_entity_def
          instance_entity_def iterparse_def clear_def)
  have idx: "fst (first_pass tree_doc st0) =
      \<lparr>components_map = [(''20'', 0), (''21'', 1)], templates_map = [(''100'', 3)],
       heap = [Element ''COMPONENT'' [] None [], Element ''COMPONENT'' [] None [],
               Element ''COMPONENT'' [] None [], Element ''ENTITY'' [] None [],
               Element ''COMPONENT'' [] None [], Element ''ENTITY'' [] None []]\<rparr>"
    by (simp add: tree_doc_def root_template_def root_instance_def template_entity_def
          instance_entity_def pass_eval get_def truthy_def Let_def upt_rec logging_def)
  show "components_map (fst (first_pass tree_doc st0)) = [(''20'', 0), (''21'', 1)]"
    unfolding idx by simp
  show "templates_map (fst (first_pass tree_doc st0)) = [(''100'', 3)]"
    unfolding idx by simp
  show "deref (heap (fst (first_pass tree_doc st0)))
        (components_map (fst (first_pass tree_doc st0))) ''21''
       = Some (Element ''COMPONENT'' [] None [])"
    unfolding idx by (simp add: deref_def)
  show "deref (heap (fst (first_pass tree_doc st0)))
        (templates_map (fst (first_pass tree_doc st0))) ''100''
       = Some (Element ''ENTITY'' [] None [])"
    unfolding idx by (simp add: deref_def)
  show "convert pf_ex Posix 1 tree_doc ''maps'' st0
       = (Inr [\<lparr>name = Some ''Tree 01'', class_name = Some ''NiEntity'', type_name = None,
                template_id = None, instance_id = Some ''101'',
                components = [[(''link_id'', PStr ''21''), (''class'', PNone),
                               (''name'', PNone)]]\<rparr>],
          \<lparr>logged = [First_pass_start, First_pass_complete 2 1, Second_pass_start,
                     Second_pass_complete],
           unhandled = {''None::None''}\<rparr>)"
    by (simp add: tree_doc_def root_template_def root_instance_def template_entity_def
          instance_entity_def pass_eval upt_rec ex_eval)
  show "fst (second_pass pf_ex Posix 1 tree_doc root_map entity_templates ''maps'' st0)
       = Inr [\<lparr>name = Some ''Tree 01'', class_name = Some ''NiEntity'', type_name = None,
               template_id = Some ''100'', instance_id = Some ''101'',
               components = [[(''link_id'', PStr ''21''),
                              (''class'', PStr ''NiTransformationComponent''),
                              (''name'', PStr ''Root''), (''scale'', PFloat 2)]]\<rparr>]"
    by (simp add: tree_doc_def root_map_def entity_templates_def root_template_def
          root_instance_def template_entity_def instance_entity_def pass_eval pf_ex_def ex_eval)
qed

end
